theory Spec2Isabelle
  imports Main
begin

section \<open>Strings and errors\<close>

text \<open>
  Go strings are byte sequences; they are modelled as \<^typ>\<open>string\<close> (a list of 8-bit
  characters). The client leans on three functions of Go's \<^verbatim>\<open>strings\<close> package:
  \<^verbatim>\<open>TrimSpace\<close>, \<^verbatim>\<open>ToLower\<close> and \<^verbatim>\<open>EqualFold\<close>.

  \<^verbatim>\<open>strings.TrimSpace\<close> removes, first from the left and then from the right, every rune
  for which \<^verbatim>\<open>unicode.IsSpace\<close> holds. Those runes are U+0009..U+000D, U+0020, U+0085,
  U+00A0, U+1680, U+2000..U+200A, U+2028, U+2029, U+202F, U+205F and U+3000. On a byte
  string a rune is recognised by its UTF-8 encoding, so the list below holds the encodings
  of exactly these runes; any other byte sequence (a different rune, or an invalid byte,
  which Go decodes as U+FFFD) stops the trimming.
\<close>

definition spaceRunes :: "string list" where
  "spaceRunes =
    [[CHR 0x09], [CHR 0x0A], [CHR 0x0B], [CHR 0x0C], [CHR 0x0D], [CHR 0x20],
     [CHR 0xC2, CHR 0x85], [CHR 0xC2, CHR 0xA0],
     [CHR 0xE1, CHR 0x9A, CHR 0x80],
     [CHR 0xE2, CHR 0x80, CHR 0x80], [CHR 0xE2, CHR 0x80, CHR 0x81],
     [CHR 0xE2, CHR 0x80, CHR 0x82], [CHR 0xE2, CHR 0x80, CHR 0x83],
     [CHR 0xE2, CHR 0x80, CHR 0x84], [CHR 0xE2, CHR 0x80, CHR 0x85],
     [CHR 0xE2, CHR 0x80, CHR 0x86], [CHR 0xE2, CHR 0x80, CHR 0x87],
     [CHR 0xE2, CHR 0x80, CHR 0x88], [CHR 0xE2, CHR 0x80, CHR 0x89],
     [CHR 0xE2, CHR 0x80, CHR 0x8A],
     [CHR 0xE2, CHR 0x80, CHR 0xA8], [CHR 0xE2, CHR 0x80, CHR 0xA9],
     [CHR 0xE2, CHR 0x80, CHR 0xAF],
     [CHR 0xE2, CHR 0x81, CHR 0x9F],
     [CHR 0xE3, CHR 0x80, CHR 0x80]]"

definition leadingSpace :: "string \<Rightarrow> string option" where
  "leadingSpace s = find (\<lambda>e. take (length e) s = e) spaceRunes"

definition trailingSpace :: "string \<Rightarrow> string option" where
  "trailingSpace s = find (\<lambda>e. drop (length s - length e) s = e) spaceRunes"

lemma spaceRunes_nonempty: "[] \<notin> set spaceRunes"
  by (simp add: spaceRunes_def)

lemma leadingSpace_Some:
  assumes "leadingSpace s = Some e"
  shows "e \<noteq> [] \<and> take (length e) s = e"
proof -
  from assms obtain i where i: "i < length spaceRunes" "e = spaceRunes ! i"
    and t: "take (length (spaceRunes ! i)) s = spaceRunes ! i"
    unfolding leadingSpace_def find_Some_iff by auto
  from i have "e \<in> set spaceRunes" by simp
  then show ?thesis using spaceRunes_nonempty i t by metis
qed

lemma trailingSpace_Some:
  assumes "trailingSpace s = Some e"
  shows "e \<noteq> [] \<and> drop (length s - length e) s = e"
proof -
  from assms obtain i where i: "i < length spaceRunes" "e = spaceRunes ! i"
    and t: "drop (length s - length (spaceRunes ! i)) s = spaceRunes ! i"
    unfolding trailingSpace_def find_Some_iff by auto
  from i have "e \<in> set spaceRunes" by simp
  then show ?thesis using spaceRunes_nonempty i t by metis
qed

function TrimLeftSpace :: "string \<Rightarrow> string" where
  "TrimLeftSpace s =
     (case leadingSpace s of
        None \<Rightarrow> s
      | Some e \<Rightarrow> TrimLeftSpace (drop (length e) s))"
  by pat_completeness auto
termination
proof (relation "measure length")
  show "wf (measure length)" by simp
next
  fix s e assume "leadingSpace s = Some e"
  then have e: "e \<noteq> []" "take (length e) s = e"
    using leadingSpace_Some by auto
  then have "s \<noteq> []" by auto
  with e show "(drop (length e) s, s) \<in> measure length" by simp
qed

function TrimRightSpace :: "string \<Rightarrow> string" where
  "TrimRightSpace s =
     (case trailingSpace s of
        None \<Rightarrow> s
      | Some e \<Rightarrow> TrimRightSpace (take (length s - length e) s))"
  by pat_completeness auto
termination
proof (relation "measure length")
  show "wf (measure length)" by simp
next
  fix s e assume "trailingSpace s = Some e"
  then have e: "e \<noteq> []" "drop (length s - length e) s = e"
    using trailingSpace_Some by auto
  then have "s \<noteq> []" by auto
  with e show "(take (length s - length e) s, s) \<in> measure length" by simp
qed

definition TrimSpace :: "string \<Rightarrow> string" where
  "TrimSpace s = TrimRightSpace (TrimLeftSpace s)"

subsection \<open>Case mapping\<close>

text \<open>
  \<^verbatim>\<open>strings.ToLower\<close> and \<^verbatim>\<open>strings.EqualFold\<close> work on runes. A string is read rune
  by rune as \<^verbatim>\<open>utf8.DecodeRuneInString\<close> does: a byte below \<^verbatim>\<open>0x80\<close> is a rune of its own,
  a well-formed sequence of two to four bytes is one rune, and any other byte is decoded as
  \<^verbatim>\<open>RuneError\<close> (U+FFFD) of width one. \<open>runes\<close> is the sequence of runes a
  \<^verbatim>\<open>for range\<close> loop over the string sees; \<open>EncodeRune\<close> is \<^verbatim>\<open>utf8.AppendRune\<close>.
\<close>

type_synonym rune = int

definition RuneError :: rune where
  "RuneError = 0xFFFD"

definition MaxRune :: rune where
  "MaxRune = 0x10FFFF"

definition MaxASCII :: rune where
  "MaxASCII = 0x7F"

definition RuneSelf :: rune where
  "RuneSelf = 0x80"

fun DecodeRuneInString :: "string \<Rightarrow> rune \<times> nat" where
  "DecodeRuneInString [] = (RuneError, 0)"
| "DecodeRuneInString (c0 # s) =
     (let s0 = (of_char c0 :: rune) in
      if s0 < RuneSelf then (s0, 1)
      else if s0 < 0xC2 \<or> 0xF4 < s0 then (RuneError, 1)
      else
       (let sz = (if s0 < 0xE0 then 2 else if s0 < 0xF0 then 3 else (4::nat));
            lo = (if s0 = 0xE0 then 0xA0 else if s0 = 0xF0 then 0x90 else (0x80::rune));
            hi = (if s0 = 0xED then 0x9F else if s0 = 0xF4 then 0x8F else (0xBF::rune))
        in
        if length s + 1 < sz then (RuneError, 1)
        else
         (let s1 = (of_char (s ! 0) :: rune) in
          if s1 < lo \<or> hi < s1 then (RuneError, 1)
          else if sz \<le> 2 then ((s0 mod 0x20) * 0x40 + s1 mod 0x40, 2)
          else
           (let s2 = (of_char (s ! 1) :: rune) in
            if s2 < 0x80 \<or> 0xBF < s2 then (RuneError, 1)
            else if sz \<le> 3 then
              ((s0 mod 0x10) * 0x1000 + (s1 mod 0x40) * 0x40 + s2 mod 0x40, 3)
            else
             (let s3 = (of_char (s ! 2) :: rune) in
              if s3 < 0x80 \<or> 0xBF < s3 then (RuneError, 1)
              else
                ((s0 mod 8) * 0x40000 + (s1 mod 0x40) * 0x1000 +
                 (s2 mod 0x40) * 0x40 + s3 mod 0x40, 4))))))"

lemma DecodeRuneInString_size: "0 < snd (DecodeRuneInString (c # s))"
  by (simp add: Let_def)

function runes :: "string \<Rightarrow> rune list" where
  "runes [] = []"
| "runes (c # s) =
     fst (DecodeRuneInString (c # s)) #
       runes (drop (snd (DecodeRuneInString (c # s))) (c # s))"
  by pat_completeness auto
termination
proof (relation "measure length")
  show "wf (measure length)" by simp
next
  fix c :: char and s :: string
  have "0 < snd (DecodeRuneInString (c # s))" by (rule DecodeRuneInString_size)
  then show "(drop (snd (DecodeRuneInString (c # s))) (c # s), c # s) \<in> measure length"
    by simp
qed

definition EncodeRune :: "rune \<Rightarrow> string" where
  "EncodeRune r =
     (if 0 \<le> r \<and> r \<le> 0x7F then [char_of r]
      else if 0 \<le> r \<and> r \<le> 0x7FF then
        [char_of (0xC0 + r div 0x40), char_of (0x80 + r mod 0x40)]
      else if r < 0 \<or> MaxRune < r \<or> (0xD800 \<le> r \<and> r \<le> 0xDFFF) then
        [CHR 0xEF, CHR 0xBF, CHR 0xBD]
      else if r \<le> 0xFFFF then
        [char_of (0xE0 + r div 0x1000), char_of (0x80 + r div 0x40 mod 0x40),
         char_of (0x80 + r mod 0x40)]
      else
        [char_of (0xF0 + r div 0x40000), char_of (0x80 + r div 0x1000 mod 0x40),
         char_of (0x80 + r div 0x40 mod 0x40), char_of (0x80 + r mod 0x40)])"

text \<open>
  The case tables of Go's \<^verbatim>\<open>unicode\<close> package (Unicode 15.0.0, the version of the Go 1.25
  toolchain the project names). A \<open>CaseRange\<close> is \<^verbatim>\<open>{Lo, Hi, Delta}\<close> with the deltas to
  upper and to lower case (the delta to title case is never consulted here). A delta of
  \<open>UpperLower\<close> marks a stretch of alternating upper- and lower-case runes, the upper-case
  ones at even offsets. \<^verbatim>\<open>unicode.to\<close> finds the range of a rune by binary search; the
  ranges are disjoint and ascending, so the search from the left finds the same range.
\<close>

type_synonym CaseRange = "rune \<times> rune \<times> rune \<times> rune"

definition UpperCase :: nat where
  "UpperCase = 0"

definition LowerCase :: nat where
  "LowerCase = 1"

definition UpperLower :: rune where
  "UpperLower = MaxRune + 1"

definition CaseRanges :: "CaseRange list" where
  "CaseRanges =
    [(0x0041, 0x005A, 0, 32), (0x0061, 0x007A, - 32, 0), (0x00B5, 0x00B5, 743, 0),
     (0x00C0, 0x00D6, 0, 32), (0x00D8, 0x00DE, 0, 32), (0x00E0, 0x00F6, - 32, 0),
     (0x00F8, 0x00FE, - 32, 0), (0x00FF, 0x00FF, 121, 0),
     (0x0100, 0x012F, UpperLower, UpperLower), (0x0130, 0x0130, 0, - 199),
     (0x0131, 0x0131, - 232, 0), (0x0132, 0x0137, UpperLower, UpperLower),
     (0x0139, 0x0148, UpperLower, UpperLower), (0x014A, 0x0177, UpperLower, UpperLower),
     (0x0178, 0x0178, 0, - 121), (0x0179, 0x017E, UpperLower, UpperLower),
     (0x017F, 0x017F, - 300, 0), (0x0180, 0x0180, 195, 0), (0x0181, 0x0181, 0, 210),
     (0x0182, 0x0185, UpperLower, UpperLower), (0x0186, 0x0186, 0, 206),
     (0x0187, 0x0188, UpperLower, UpperLower), (0x0189, 0x018A, 0, 205),
     (0x018B, 0x018C, UpperLower, UpperLower), (0x018E, 0x018E, 0, 79),
     (0x018F, 0x018F, 0, 202), (0x0190, 0x0190, 0, 203),
     (0x0191, 0x0192, UpperLower, UpperLower), (0x0193, 0x0193, 0, 205),
     (0x0194, 0x0194, 0, 207), (0x0195, 0x0195, 97, 0), (0x0196, 0x0196, 0, 211),
     (0x0197, 0x0197, 0, 209), (0x0198, 0x0199, UpperLower, UpperLower),
     (0x019A, 0x019A, 163, 0), (0x019C, 0x019C, 0, 211), (0x019D, 0x019D, 0, 213),
     (0x019E, 0x019E, 130, 0), (0x019F, 0x019F, 0, 214),
     (0x01A0, 0x01A5, UpperLower, UpperLower), (0x01A6, 0x01A6, 0, 218),
     (0x01A7, 0x01A8, UpperLower, UpperLower), (0x01A9, 0x01A9, 0, 218),
     (0x01AC, 0x01AD, UpperLower, UpperLower), (0x01AE, 0x01AE, 0, 218),
     (0x01AF, 0x01B0, UpperLower, UpperLower), (0x01B1, 0x01B2, 0, 217),
     (0x01B3, 0x01B6, UpperLower, UpperLower), (0x01B7, 0x01B7, 0, 219),
     (0x01B8, 0x01B9, UpperLower, UpperLower), (0x01BC, 0x01BD, UpperLower, UpperLower),
     (0x01BF, 0x01BF, 56, 0), (0x01C4, 0x01C4, 0, 2), (0x01C5, 0x01C5, - 1, 1),
     (0x01C6, 0x01C6, - 2, 0), (0x01C7, 0x01C7, 0, 2), (0x01C8, 0x01C8, - 1, 1),
     (0x01C9, 0x01C9, - 2, 0), (0x01CA, 0x01CA, 0, 2), (0x01CB, 0x01CB, - 1, 1),
     (0x01CC, 0x01CC, - 2, 0), (0x01CD, 0x01DC, UpperLower, UpperLower),
     (0x01DD, 0x01DD, - 79, 0), (0x01DE, 0x01EF, UpperLower, UpperLower),
     (0x01F1, 0x01F1, 0, 2), (0x01F2, 0x01F2, - 1, 1), (0x01F3, 0x01F3, - 2, 0),
     (0x01F4, 0x01F5, UpperLower, UpperLower), (0x01F6, 0x01F6, 0, - 97),
     (0x01F7, 0x01F7, 0, - 56), (0x01F8, 0x021F, UpperLower, UpperLower),
     (0x0220, 0x0220, 0, - 130), (0x0222, 0x0233, UpperLower, UpperLower),
     (0x023A, 0x023A, 0, 10795), (0x023B, 0x023C, UpperLower, UpperLower),
     (0x023D, 0x023D, 0, - 163), (0x023E, 0x023E, 0, 10792), (0x023F, 0x0240, 10815, 0),
     (0x0241, 0x0242, UpperLower, UpperLower), (0x0243, 0x0243, 0, - 195),
     (0x0244, 0x0244, 0, 69), (0x0245, 0x0245, 0, 71),
     (0x0246, 0x024F, UpperLower, UpperLower), (0x0250, 0x0250, 10783, 0),
     (0x0251, 0x0251, 10780, 0), (0x0252, 0x0252, 10782, 0), (0x0253, 0x0253, - 210, 0),
     (0x0254, 0x0254, - 206, 0), (0x0256, 0x0257, - 205, 0), (0x0259, 0x0259, - 202, 0),
     (0x025B, 0x025B, - 203, 0), (0x025C, 0x025C, 42319, 0), (0x0260, 0x0260, - 205, 0),
     (0x0261, 0x0261, 42315, 0), (0x0263, 0x0263, - 207, 0), (0x0265, 0x0265, 42280, 0),
     (0x0266, 0x0266, 42308, 0), (0x0268, 0x0268, - 209, 0), (0x0269, 0x0269, - 211, 0),
     (0x026A, 0x026A, 42308, 0), (0x026B, 0x026B, 10743, 0), (0x026C, 0x026C, 42305, 0),
     (0x026F, 0x026F, - 211, 0), (0x0271, 0x0271, 10749, 0), (0x0272, 0x0272, - 213, 0),
     (0x0275, 0x0275, - 214, 0), (0x027D, 0x027D, 10727, 0), (0x0280, 0x0280, - 218, 0),
     (0x0282, 0x0282, 42307, 0), (0x0283, 0x0283, - 218, 0), (0x0287, 0x0287, 42282, 0),
     (0x0288, 0x0288, - 218, 0), (0x0289, 0x0289, - 69, 0), (0x028A, 0x028B, - 217, 0),
     (0x028C, 0x028C, - 71, 0), (0x0292, 0x0292, - 219, 0), (0x029D, 0x029D, 42261, 0),
     (0x029E, 0x029E, 42258, 0), (0x0345, 0x0345, 84, 0),
     (0x0370, 0x0373, UpperLower, UpperLower), (0x0376, 0x0377, UpperLower, UpperLower),
     (0x037B, 0x037D, 130, 0), (0x037F, 0x037F, 0, 116), (0x0386, 0x0386, 0, 38),
     (0x0388, 0x038A, 0, 37), (0x038C, 0x038C, 0, 64), (0x038E, 0x038F, 0, 63),
     (0x0391, 0x03A1, 0, 32), (0x03A3, 0x03AB, 0, 32), (0x03AC, 0x03AC, - 38, 0),
     (0x03AD, 0x03AF, - 37, 0), (0x03B1, 0x03C1, - 32, 0), (0x03C2, 0x03C2, - 31, 0),
     (0x03C3, 0x03CB, - 32, 0), (0x03CC, 0x03CC, - 64, 0), (0x03CD, 0x03CE, - 63, 0),
     (0x03CF, 0x03CF, 0, 8), (0x03D0, 0x03D0, - 62, 0), (0x03D1, 0x03D1, - 57, 0),
     (0x03D5, 0x03D5, - 47, 0), (0x03D6, 0x03D6, - 54, 0), (0x03D7, 0x03D7, - 8, 0),
     (0x03D8, 0x03EF, UpperLower, UpperLower), (0x03F0, 0x03F0, - 86, 0),
     (0x03F1, 0x03F1, - 80, 0), (0x03F2, 0x03F2, 7, 0), (0x03F3, 0x03F3, - 116, 0),
     (0x03F4, 0x03F4, 0, - 60), (0x03F5, 0x03F5, - 96, 0),
     (0x03F7, 0x03F8, UpperLower, UpperLower), (0x03F9, 0x03F9, 0, - 7),
     (0x03FA, 0x03FB, UpperLower, UpperLower), (0x03FD, 0x03FF, 0, - 130),
     (0x0400, 0x040F, 0, 80), (0x0410, 0x042F, 0, 32), (0x0430, 0x044F, - 32, 0),
     (0x0450, 0x045F, - 80, 0), (0x0460, 0x0481, UpperLower, UpperLower),
     (0x048A, 0x04BF, UpperLower, UpperLower), (0x04C0, 0x04C0, 0, 15),
     (0x04C1, 0x04CE, UpperLower, UpperLower), (0x04CF, 0x04CF, - 15, 0),
     (0x04D0, 0x052F, UpperLower, UpperLower), (0x0531, 0x0556, 0, 48),
     (0x0561, 0x0586, - 48, 0), (0x10A0, 0x10C5, 0, 7264), (0x10C7, 0x10C7, 0, 7264),
     (0x10CD, 0x10CD, 0, 7264), (0x10D0, 0x10FA, 3008, 0), (0x10FD, 0x10FF, 3008, 0),
     (0x13A0, 0x13EF, 0, 38864), (0x13F0, 0x13F5, 0, 8), (0x13F8, 0x13FD, - 8, 0),
     (0x1C80, 0x1C80, - 6254, 0), (0x1C81, 0x1C81, - 6253, 0), (0x1C82, 0x1C82, - 6244, 0),
     (0x1C83, 0x1C84, - 6242, 0), (0x1C85, 0x1C85, - 6243, 0), (0x1C86, 0x1C86, - 6236, 0),
     (0x1C87, 0x1C87, - 6181, 0), (0x1C88, 0x1C88, 35266, 0), (0x1C90, 0x1CBA, 0, - 3008),
     (0x1CBD, 0x1CBF, 0, - 3008), (0x1D79, 0x1D79, 35332, 0), (0x1D7D, 0x1D7D, 3814, 0),
     (0x1D8E, 0x1D8E, 35384, 0), (0x1E00, 0x1E95, UpperLower, UpperLower),
     (0x1E9B, 0x1E9B, - 59, 0), (0x1E9E, 0x1E9E, 0, - 7615),
     (0x1EA0, 0x1EFF, UpperLower, UpperLower), (0x1F00, 0x1F07, 8, 0),
     (0x1F08, 0x1F0F, 0, - 8), (0x1F10, 0x1F15, 8, 0), (0x1F18, 0x1F1D, 0, - 8),
     (0x1F20, 0x1F27, 8, 0), (0x1F28, 0x1F2F, 0, - 8), (0x1F30, 0x1F37, 8, 0),
     (0x1F38, 0x1F3F, 0, - 8), (0x1F40, 0x1F45, 8, 0), (0x1F48, 0x1F4D, 0, - 8),
     (0x1F51, 0x1F51, 8, 0), (0x1F53, 0x1F53, 8, 0), (0x1F55, 0x1F55, 8, 0),
     (0x1F57, 0x1F57, 8, 0), (0x1F59, 0x1F59, 0, - 8), (0x1F5B, 0x1F5B, 0, - 8),
     (0x1F5D, 0x1F5D, 0, - 8), (0x1F5F, 0x1F5F, 0, - 8), (0x1F60, 0x1F67, 8, 0),
     (0x1F68, 0x1F6F, 0, - 8), (0x1F70, 0x1F71, 74, 0), (0x1F72, 0x1F75, 86, 0),
     (0x1F76, 0x1F77, 100, 0), (0x1F78, 0x1F79, 128, 0), (0x1F7A, 0x1F7B, 112, 0),
     (0x1F7C, 0x1F7D, 126, 0), (0x1F80, 0x1F87, 8, 0), (0x1F88, 0x1F8F, 0, - 8),
     (0x1F90, 0x1F97, 8, 0), (0x1F98, 0x1F9F, 0, - 8), (0x1FA0, 0x1FA7, 8, 0),
     (0x1FA8, 0x1FAF, 0, - 8), (0x1FB0, 0x1FB1, 8, 0), (0x1FB3, 0x1FB3, 9, 0),
     (0x1FB8, 0x1FB9, 0, - 8), (0x1FBA, 0x1FBB, 0, - 74), (0x1FBC, 0x1FBC, 0, - 9),
     (0x1FBE, 0x1FBE, - 7205, 0), (0x1FC3, 0x1FC3, 9, 0), (0x1FC8, 0x1FCB, 0, - 86),
     (0x1FCC, 0x1FCC, 0, - 9), (0x1FD0, 0x1FD1, 8, 0), (0x1FD8, 0x1FD9, 0, - 8),
     (0x1FDA, 0x1FDB, 0, - 100), (0x1FE0, 0x1FE1, 8, 0), (0x1FE5, 0x1FE5, 7, 0),
     (0x1FE8, 0x1FE9, 0, - 8), (0x1FEA, 0x1FEB, 0, - 112), (0x1FEC, 0x1FEC, 0, - 7),
     (0x1FF3, 0x1FF3, 9, 0), (0x1FF8, 0x1FF9, 0, - 128), (0x1FFA, 0x1FFB, 0, - 126),
     (0x1FFC, 0x1FFC, 0, - 9), (0x2126, 0x2126, 0, - 7517), (0x212A, 0x212A, 0, - 8383),
     (0x212B, 0x212B, 0, - 8262), (0x2132, 0x2132, 0, 28), (0x214E, 0x214E, - 28, 0),
     (0x2160, 0x216F, 0, 16), (0x2170, 0x217F, - 16, 0),
     (0x2183, 0x2184, UpperLower, UpperLower), (0x24B6, 0x24CF, 0, 26),
     (0x24D0, 0x24E9, - 26, 0), (0x2C00, 0x2C2F, 0, 48), (0x2C30, 0x2C5F, - 48, 0),
     (0x2C60, 0x2C61, UpperLower, UpperLower), (0x2C62, 0x2C62, 0, - 10743),
     (0x2C63, 0x2C63, 0, - 3814), (0x2C64, 0x2C64, 0, - 10727),
     (0x2C65, 0x2C65, - 10795, 0), (0x2C66, 0x2C66, - 10792, 0),
     (0x2C67, 0x2C6C, UpperLower, UpperLower), (0x2C6D, 0x2C6D, 0, - 10780),
     (0x2C6E, 0x2C6E, 0, - 10749), (0x2C6F, 0x2C6F, 0, - 10783),
     (0x2C70, 0x2C70, 0, - 10782), (0x2C72, 0x2C73, UpperLower, UpperLower),
     (0x2C75, 0x2C76, UpperLower, UpperLower), (0x2C7E, 0x2C7F, 0, - 10815),
     (0x2C80, 0x2CE3, UpperLower, UpperLower), (0x2CEB, 0x2CEE, UpperLower, UpperLower),
     (0x2CF2, 0x2CF3, UpperLower, UpperLower), (0x2D00, 0x2D25, - 7264, 0),
     (0x2D27, 0x2D27, - 7264, 0), (0x2D2D, 0x2D2D, - 7264, 0),
     (0xA640, 0xA66D, UpperLower, UpperLower), (0xA680, 0xA69B, UpperLower, UpperLower),
     (0xA722, 0xA72F, UpperLower, UpperLower), (0xA732, 0xA76F, UpperLower, UpperLower),
     (0xA779, 0xA77C, UpperLower, UpperLower), (0xA77D, 0xA77D, 0, - 35332),
     (0xA77E, 0xA787, UpperLower, UpperLower), (0xA78B, 0xA78C, UpperLower, UpperLower),
     (0xA78D, 0xA78D, 0, - 42280), (0xA790, 0xA793, UpperLower, UpperLower),
     (0xA794, 0xA794, 48, 0), (0xA796, 0xA7A9, UpperLower, UpperLower),
     (0xA7AA, 0xA7AA, 0, - 42308), (0xA7AB, 0xA7AB, 0, - 42319),
     (0xA7AC, 0xA7AC, 0, - 42315), (0xA7AD, 0xA7AD, 0, - 42305),
     (0xA7AE, 0xA7AE, 0, - 42308), (0xA7B0, 0xA7B0, 0, - 42258),
     (0xA7B1, 0xA7B1, 0, - 42282), (0xA7B2, 0xA7B2, 0, - 42261), (0xA7B3, 0xA7B3, 0, 928),
     (0xA7B4, 0xA7C3, UpperLower, UpperLower), (0xA7C4, 0xA7C4, 0, - 48),
     (0xA7C5, 0xA7C5, 0, - 42307), (0xA7C6, 0xA7C6, 0, - 35384),
     (0xA7C7, 0xA7CA, UpperLower, UpperLower), (0xA7D0, 0xA7D1, UpperLower, UpperLower),
     (0xA7D6, 0xA7D9, UpperLower, UpperLower), (0xA7F5, 0xA7F6, UpperLower, UpperLower),
     (0xAB53, 0xAB53, - 928, 0), (0xAB70, 0xABBF, - 38864, 0), (0xFF21, 0xFF3A, 0, 32),
     (0xFF41, 0xFF5A, - 32, 0), (0x10400, 0x10427, 0, 40), (0x10428, 0x1044F, - 40, 0),
     (0x104B0, 0x104D3, 0, 40), (0x104D8, 0x104FB, - 40, 0), (0x10570, 0x1057A, 0, 39),
     (0x1057C, 0x1058A, 0, 39), (0x1058C, 0x10592, 0, 39), (0x10594, 0x10595, 0, 39),
     (0x10597, 0x105A1, - 39, 0), (0x105A3, 0x105B1, - 39, 0), (0x105B3, 0x105B9, - 39, 0),
     (0x105BB, 0x105BC, - 39, 0), (0x10C80, 0x10CB2, 0, 64), (0x10CC0, 0x10CF2, - 64, 0),
     (0x118A0, 0x118BF, 0, 32), (0x118C0, 0x118DF, - 32, 0), (0x16E40, 0x16E5F, 0, 32),
     (0x16E60, 0x16E7F, - 32, 0), (0x1E900, 0x1E921, 0, 34), (0x1E922, 0x1E943, - 34, 0)]"

fun to :: "nat \<Rightarrow> rune \<Rightarrow> CaseRange list \<Rightarrow> rune" where
  "to c r [] = r"
| "to c r ((lo, hi, deltaUpper, deltaLower) # caseRange) =
     (if lo \<le> r \<and> r \<le> hi then
        (let delta = (if c = UpperCase then deltaUpper else deltaLower) in
         if delta > MaxRune then lo + ((r - lo) div 2 * 2 + int (c mod 2))
         else r + delta)
      else to c r caseRange)"

definition To :: "nat \<Rightarrow> rune \<Rightarrow> rune" where
  "To c r = to c r CaseRanges"

definition unicode_ToLower :: "rune \<Rightarrow> rune" where
  "unicode_ToLower r =
     (if r \<le> MaxASCII then (if 0x41 \<le> r \<and> r \<le> 0x5A then r + 0x20 else r)
      else To LowerCase r)"

definition unicode_ToUpper :: "rune \<Rightarrow> rune" where
  "unicode_ToUpper r =
     (if r \<le> MaxASCII then (if 0x61 \<le> r \<and> r \<le> 0x7A then r - 0x20 else r)
      else To UpperCase r)"

text \<open>
  \<^verbatim>\<open>unicode.SimpleFold\<close> steps through the runes that are equal under simple case
  folding: to the next larger one, or from the largest round to the smallest. Below
  \<^verbatim>\<open>0x80\<close> the step is read from the table \<^verbatim>\<open>asciiFold\<close> (letters swap case, except that
  \<^verbatim>\<open>k\<close> goes to the Kelvin sign U+212A and \<^verbatim>\<open>s\<close> to the long s U+017F); above, from the
  table \<^verbatim>\<open>caseOrbit\<close> where it has an entry, and otherwise from the lower- or upper-case
  mapping.
\<close>

definition asciiFold :: "rune \<Rightarrow> rune" where
  "asciiFold r =
     (if r = 0x6B then 0x212A
      else if r = 0x73 then 0x017F
      else if 0x41 \<le> r \<and> r \<le> 0x5A then r + 0x20
      else if 0x61 \<le> r \<and> r \<le> 0x7A then r - 0x20
      else r)"

definition caseOrbit :: "(rune \<times> rune) list" where
  "caseOrbit =
    [(0x00B5, 0x039C), (0x00C5, 0x00E5), (0x00DF, 0x1E9E), (0x00E5, 0x212B),
     (0x0130, 0x0130), (0x0131, 0x0131), (0x017F, 0x0053), (0x01C4, 0x01C5),
     (0x01C5, 0x01C6), (0x01C6, 0x01C4), (0x01C7, 0x01C8), (0x01C8, 0x01C9),
     (0x01C9, 0x01C7), (0x01CA, 0x01CB), (0x01CB, 0x01CC), (0x01CC, 0x01CA),
     (0x01F1, 0x01F2), (0x01F2, 0x01F3), (0x01F3, 0x01F1), (0x0345, 0x0399),
     (0x0392, 0x03B2), (0x0395, 0x03B5), (0x0398, 0x03B8), (0x0399, 0x03B9),
     (0x039A, 0x03BA), (0x039C, 0x03BC), (0x03A0, 0x03C0), (0x03A1, 0x03C1),
     (0x03A3, 0x03C2), (0x03A6, 0x03C6), (0x03A9, 0x03C9), (0x03B2, 0x03D0),
     (0x03B5, 0x03F5), (0x03B8, 0x03D1), (0x03B9, 0x1FBE), (0x03BA, 0x03F0),
     (0x03BC, 0x00B5), (0x03C0, 0x03D6), (0x03C1, 0x03F1), (0x03C2, 0x03C3),
     (0x03C3, 0x03A3), (0x03C6, 0x03D5), (0x03C9, 0x2126), (0x03D0, 0x0392),
     (0x03D1, 0x03F4), (0x03D5, 0x03A6), (0x03D6, 0x03A0), (0x03F0, 0x039A),
     (0x03F1, 0x03A1), (0x03F4, 0x0398), (0x03F5, 0x0395), (0x0412, 0x0432),
     (0x0414, 0x0434), (0x041E, 0x043E), (0x0421, 0x0441), (0x0422, 0x0442),
     (0x042A, 0x044A), (0x0432, 0x1C80), (0x0434, 0x1C81), (0x043E, 0x1C82),
     (0x0441, 0x1C83), (0x0442, 0x1C84), (0x044A, 0x1C86), (0x0462, 0x0463),
     (0x0463, 0x1C87), (0x1C80, 0x0412), (0x1C81, 0x0414), (0x1C82, 0x041E),
     (0x1C83, 0x0421), (0x1C84, 0x1C85), (0x1C85, 0x0422), (0x1C86, 0x042A),
     (0x1C87, 0x0462), (0x1C88, 0xA64A), (0x1E60, 0x1E61), (0x1E61, 0x1E9B),
     (0x1E9B, 0x1E60), (0x1E9E, 0x00DF), (0x1FBE, 0x0345), (0x2126, 0x03A9),
     (0x212A, 0x004B), (0x212B, 0x00C5), (0xA64A, 0xA64B), (0xA64B, 0x1C88)]"

definition SimpleFold :: "rune \<Rightarrow> rune" where
  "SimpleFold r =
     (if r < 0 \<or> r > MaxRune then r
      else if r \<le> MaxASCII then asciiFold r
      else
       (case map_of caseOrbit r of
          Some folded \<Rightarrow> folded
        | None \<Rightarrow>
           (let l = unicode_ToLower r in
            if l \<noteq> r then l else unicode_ToUpper r)))"

text \<open>
  \<^verbatim>\<open>strings.Map\<close> applies a mapping to every rune of a string and encodes the results; an
  invalid byte is read as \<^verbatim>\<open>RuneError\<close> and a negative result is dropped. Go copies the
  longest prefix the mapping leaves unchanged instead of re-encoding it, which gives the same
  bytes, since only well-formed runes are left unchanged.

  \<^verbatim>\<open>strings.ToLower\<close> lower-cases a string of bytes below \<^verbatim>\<open>0x80\<close> byte by byte, and
  any other string through \<^verbatim>\<open>Map(unicode.ToLower, s)\<close>.
\<close>

definition Map :: "(rune \<Rightarrow> rune) \<Rightarrow> string \<Rightarrow> string" where
  "Map mapping s =
     concat (map (\<lambda>c. let r = mapping c in if 0 \<le> r then EncodeRune r else []) (runes s))"

definition toLowerByte :: "char \<Rightarrow> char" where
  "toLowerByte c =
     (if (0x41::rune) \<le> of_char c \<and> of_char c \<le> (0x5A::rune)
      then char_of (of_char c + (0x20::rune)) else c)"

definition ToLower :: "string \<Rightarrow> string" where
  "ToLower s =
     (let isASCII = list_all (\<lambda>c. of_char c < RuneSelf) s;
          hasUpper = list_ex (\<lambda>c. (0x41::rune) \<le> of_char c \<and> of_char c \<le> (0x5A::rune)) s
      in if isASCII then (if \<not> hasUpper then s else map toLowerByte s)
         else Map unicode_ToLower s)"

text \<open>
  \<^verbatim>\<open>strings.EqualFold\<close> compares two strings under simple case folding. It walks both
  byte by byte while the bytes are below \<^verbatim>\<open>0x80\<close>, and rune by rune from the first byte
  that is not. Two different runes are equal when stepping with \<^verbatim>\<open>SimpleFold\<close> from the
  smaller one reaches the larger one; that walk is a loop,
  \<^verbatim>\<open>for r != sr && r < tr { r = unicode.SimpleFold(r) }\<close>, which is modelled as a partial
  function: \<open>None\<close> stands for a walk that never ends, and so for a comparison that does
  not return.
\<close>

partial_function (option) foldWalk :: "rune \<Rightarrow> rune \<Rightarrow> rune \<Rightarrow> rune option" where
  "foldWalk sr tr r = (if r \<noteq> sr \<and> r < tr then foldWalk sr tr (SimpleFold r) else Some r)"

declare foldWalk.simps [code]

fun equalFoldRunes :: "rune list \<Rightarrow> string \<Rightarrow> bool option" where
  "equalFoldRunes [] t = Some (t = [])"
| "equalFoldRunes (sr0 # s) t =
     (if t = [] then Some False
      else
       (let tr0 = fst (DecodeRuneInString t);
            t = drop (snd (DecodeRuneInString t)) t
        in
        if tr0 = sr0 then equalFoldRunes s t
        else
         (let sr = min sr0 tr0; tr = max sr0 tr0 in
          if tr < RuneSelf then
            (if 0x41 \<le> sr \<and> sr \<le> 0x5A \<and> tr = sr + 0x20 then equalFoldRunes s t
             else Some False)
          else
           (case foldWalk sr tr (SimpleFold sr) of
              None \<Rightarrow> None
            | Some r \<Rightarrow> if r = tr then equalFoldRunes s t else Some False))))"

fun EqualFold :: "string \<Rightarrow> string \<Rightarrow> bool option" where
  "EqualFold [] t = Some (t = [])"
| "EqualFold (sc # s) [] = Some False"
| "EqualFold (sc # s) (tc # t) =
     (if RuneSelf \<le> of_char sc \<or> RuneSelf \<le> of_char tc then
        equalFoldRunes (runes (sc # s)) (tc # t)
      else if tc = sc then EqualFold s t
      else if (0x41::rune) \<le> min (of_char sc) (of_char tc) \<and>
              min (of_char sc) (of_char tc) \<le> (0x5A::rune) \<and>
              max (of_char sc) (of_char tc) = min (of_char sc) (of_char tc) + (0x20::rune)
        then EqualFold s t
      else Some False)"

subsection \<open>Errors\<close>

text \<open>
  A Go \<^verbatim>\<open>error\<close> is the message it carries. \<^verbatim>\<open>fmt.Errorf\<close> builds the message;
  the \<^verbatim>\<open>%w\<close> verb puts the wrapped error's message behind a prefix.
\<close>

datatype error = Errorf string

fun wrapf :: "string \<Rightarrow> error \<Rightarrow> error" where
  "wrapf prefix (Errorf m) = Errorf (prefix @ m)"

section \<open>Data\<close>

subsection \<open>Configuration\<close>

record LumeraConfig =
  ChainID :: string
  GRPCEndpoint :: string
  RPCEndpoint :: string
  LogLevel :: string
  KeyName :: string

record ControllerConfig =
  ChainID :: string
  GRPCEndpoint :: string
  RPCEndpoint :: string
  Binary :: string
  Home :: string
  KeyName :: string
  KeyringBackend :: string
  KeyringDir :: string
  KeyringPassphrasePlain :: string
  KeyringPassphraseFile :: string
  GasPrices :: string
  AccountHRP :: string
  ConnectionID :: string
  CounterpartyConnectionID :: string

record Config =
  Lumera :: LumeraConfig
  Controller :: ControllerConfig

text \<open>
  The machine the client runs on: the TOML decoder, the user's home directory, file
  contents and the path functions of \<^verbatim>\<open>path/filepath\<close>. All of them are parameters.
  \<open>DecodeFile\<close> stands for \<^verbatim>\<open>toml.DecodeFile\<close> into a zero \<^verbatim>\<open>Config\<close>: a key the file
  does not set is the empty string.
\<close>

record host =
  DecodeFile :: "string \<Rightarrow> error + Config"
  UserHomeDir :: "error + string"
  ReadFile :: "string \<Rightarrow> error + string"
  Join :: "string \<Rightarrow> string \<Rightarrow> string"
  Clean :: "string \<Rightarrow> string"
  Base :: "string \<Rightarrow> string"
  Abs :: "string \<Rightarrow> error + string"
  MkdirAll :: "string \<Rightarrow> error + unit"

subsection \<open>Key store, ledgers and storage mesh\<close>

record repeatReader =
  data :: string
  pos :: nat

record KeyringParams =
  AppName :: string
  Backend :: string
  Dir :: string
  Input :: "repeatReader option"

text \<open>Handles of the SDK are opaque to the client; a handle is a number.\<close>

datatype keyring = KeyringHandle nat
datatype cascade_client = CascadeHandle nat
datatype blockchain_client = BlockchainHandle nat
datatype ica_controller = ICAHandle nat

text \<open>A \<^verbatim>\<open>LegacyDec\<close> is held as the integer it scales (18 decimal places).\<close>

type_synonym LegacyDec = int

record DecCoin =
  Denom :: string
  Amount :: LegacyDec

record CascadeConfig =
  ChainID :: string
  GRPCAddr :: string
  Address :: string
  KeyName :: string
  ICAOwnerKeyName :: string
  ICAOwnerHRP :: string
  Timeout :: nat
  LogLevel :: string

text \<open>
  In \<^verbatim>\<open>blockchain.Config\<close> the gas price is \<open>None\<close> where the client leaves the field at
  its zero value.
\<close>

record BlockchainConfig =
  ChainID :: string
  GRPCAddr :: string
  RPCEndpoint :: string
  AccountHRP :: string
  FeeDenom :: string
  GasPrice :: "LegacyDec option"
  Timeout :: nat
  MaxRecvMsgSize :: nat
  MaxSendMsgSize :: nat

record ICAConfig =
  Controller :: BlockchainConfig
  Host :: BlockchainConfig
  Keyring :: keyring
  KeyName :: string
  HostKeyName :: string
  ConnectionID :: string
  CounterpartyConnectionID :: string

record CascadeMetadata =
  Public :: bool
  FileName :: string

text \<open>
  The metadata of an action is an interface value. The client only asks whether it holds
  a \<^verbatim>\<open>*types.CascadeMetadata\<close>, and whether that pointer is nil.
\<close>

datatype ActionMetadata =
    NoMetadata
  | CascadeMetadataPtr "CascadeMetadata option"
  | OtherMetadata

text \<open>
  Of an action record, the fields the commands read. The SDK declares their types; the
  action type and the price are held as the strings the status report shows, the expiry
  time as its Unix time in seconds, and the application public key as its bytes.
\<close>

record Action =
  ID :: string
  State :: string
  Creator :: string
  Metadata :: ActionMetadata
  Type :: string
  Price :: string
  BlockHeight :: int
  ExpirationTime :: int
  AppPubkey :: string

text \<open>The wrapper \<^verbatim>\<open>client.Controller\<close>; \<open>inner\<close> is \<open>None\<close> for a nil pointer.\<close>

record Controller =
  inner :: "ica_controller option"

text \<open>
  The options handed to \<^verbatim>\<open>cascade.Client.Upload\<close>. The send function the client passes
  forwards every request to \<^verbatim>\<open>SendRequestAction\<close> of one controller; it is held as that
  controller.
\<close>

record UploadOptions =
  ICACreatorAddress :: string
  AppPubkey :: string
  ICASendFunc :: Controller
  PublicOption :: bool

record CascadeResult =
  ActionID :: string
  TxHash :: string
  TaskID :: string

record DownloadResult =
  ActionID :: string
  TaskID :: string
  OutputPath :: string

record MsgApproveAction =
  Creator :: string
  ActionId :: string

record Client =
  Cascade :: cascade_client
  Keyring :: keyring
  OwnerAddress :: string

record app =
  configPath :: string

datatype json = JString string | JBool bool | JInt int

text \<open>
  A result record (\<^verbatim>\<open>map[string]any\<close>) is held as the list of its entries, in the
  order the source writes them; no key occurs twice.
\<close>

type_synonym payload = "(string \<times> json) list"

text \<open>The calls the client makes on its collaborators, with their arguments.\<close>

datatype call =
    NewKeyringCall KeyringParams
  | AddressFromKeyCall keyring string string
  | CascadeNewCall CascadeConfig keyring
  | CascadeCloseCall cascade_client
  | BlockchainNewCall BlockchainConfig keyring string
  | BlockchainCloseCall blockchain_client
  | GetActionCall blockchain_client string
  | UploadToSupernodeCall cascade_client string string string
  | CascadeUploadCall cascade_client string string UploadOptions
  | DownloadCall cascade_client string string string
  | ICANewControllerCall ICAConfig
  | ICACloseCall ica_controller
  | EnsureICAAddressCall ica_controller
  | ICAAddressCall ica_controller
  | CreateApproveActionMessageCall string string
  | SendApproveActionCall ica_controller MsgApproveAction
  | WriteJSONCall payload

text \<open>
  The services the client talks to: the key store, the two ledgers, the storage mesh and
  the standard output. Their answers are parameters of the model; a deadline that elapses
  shows up as the error answer of the call that was in flight. \<open>ActionStatePending\<close> is
  the SDK's constant of that name. \<open>validateKeyType\<close> stands for the client's check of a
  key's algorithm against the configured key type (arguments: key store, key name and the
  configuration section the type is read from); the settings and the parser it reads are
  not part of the sources at hand, so its outcome is a parameter.
\<close>

record remote =
  ActionStatePending :: string
  NewKeyring :: "KeyringParams \<Rightarrow> error + keyring"
  validateKeyType :: "keyring \<Rightarrow> string \<Rightarrow> string \<Rightarrow> error + unit"
  AddressFromKey :: "keyring \<Rightarrow> string \<Rightarrow> string \<Rightarrow> error + string"
  CascadeNew :: "CascadeConfig \<Rightarrow> keyring \<Rightarrow> error + cascade_client"
  BlockchainNew :: "BlockchainConfig \<Rightarrow> keyring \<Rightarrow> string \<Rightarrow> error + blockchain_client"
  GetAction :: "blockchain_client \<Rightarrow> string \<Rightarrow> error + Action"
  UploadToSupernode ::
    "cascade_client \<Rightarrow> string \<Rightarrow> string \<Rightarrow> string \<Rightarrow> error + string"
  CascadeUpload ::
    "cascade_client \<Rightarrow> string \<Rightarrow> string \<Rightarrow> UploadOptions \<Rightarrow> error + CascadeResult"
  Download ::
    "cascade_client \<Rightarrow> string \<Rightarrow> string \<Rightarrow> string \<Rightarrow> error + DownloadResult"
  ParseDecCoins :: "string \<Rightarrow> error + DecCoin list"
  ICANewController :: "ICAConfig \<Rightarrow> error + ica_controller"
  InnerOwnerAddress :: "ica_controller \<Rightarrow> string"
  InnerAppPubkey :: "ica_controller \<Rightarrow> string"
  InnerEnsureICAAddress :: "ica_controller \<Rightarrow> error + string"
  InnerICAAddress :: "ica_controller \<Rightarrow> error + string"
  InnerSendApproveAction :: "ica_controller \<Rightarrow> MsgApproveAction \<Rightarrow> error + string"
  CreateApproveActionMessage :: "string \<Rightarrow> string \<Rightarrow> error + MsgApproveAction"
  Encode :: "payload \<Rightarrow> error + unit"

section \<open>Loading and validating the configuration\<close>

definition HasPrefix :: "string \<Rightarrow> string \<Rightarrow> bool" where
  "HasPrefix s p = (take (length p) s = p)"

definition expandHome :: "host \<Rightarrow> string \<Rightarrow> error + string" where
  "expandHome h v =
     (if v = [] then Inr v
      else if v = ''~'' then
        (case UserHomeDir h of Inl err \<Rightarrow> Inl err | Inr home \<Rightarrow> Inr home)
      else if HasPrefix v ''~/'' \<or> HasPrefix v [CHR ''~'', CHR 0x5C] then
        (case UserHomeDir h of
           Inl err \<Rightarrow> Inl err
         | Inr home \<Rightarrow> Inr (Join h home (drop 2 v)))
      else Inr v)"

definition ExpandPaths :: "host \<Rightarrow> Config \<Rightarrow> error + Config" where
  "ExpandPaths h c =
     (case expandHome h (Home (Config.Controller c)) of
        Inl err \<Rightarrow> Inl (wrapf ''expand controller.home: '' err)
      | Inr home \<Rightarrow>
     (case expandHome h (KeyringDir (Config.Controller c)) of
        Inl err \<Rightarrow> Inl (wrapf ''expand controller.keyring_dir: '' err)
      | Inr dir \<Rightarrow>
     (case expandHome h (KeyringPassphraseFile (Config.Controller c)) of
        Inl err \<Rightarrow> Inl (wrapf ''expand controller.keyring_passphrase_file: '' err)
      | Inr file \<Rightarrow>
          Inr (c\<lparr>Config.Controller := (Config.Controller c)
                 \<lparr>Home := home, KeyringDir := dir, KeyringPassphraseFile := file\<rparr>\<rparr>))))"

definition normalizeLogLevel :: "string \<Rightarrow> error + string" where
  "normalizeLogLevel v =
     (let val = ToLower (TrimSpace v) in
      if val = [] then Inr ''info''
      else if val = ''debug'' \<or> val = ''info'' \<or> val = ''warn'' \<or> val = ''error''
        then Inr val
      else if val = ''warning'' then Inr ''warn''
      else Inl (Errorf ''lumera.log_level must be one of: debug, info, warn, error''))"

text \<open>
  \<^verbatim>\<open>Validate\<close> writes the normalised log level and key-store backend into the
  configuration it checks; the model returns the configuration so updated.
\<close>

definition Validate :: "host \<Rightarrow> Config \<Rightarrow> error + Config" where
  "Validate h c0 =
     (case normalizeLogLevel (LumeraConfig.LogLevel (Lumera c0)) of
        Inl err \<Rightarrow> Inl err
      | Inr logLevel \<Rightarrow>
     (let c = c0\<lparr>Lumera := (Lumera c0)\<lparr>LumeraConfig.LogLevel := logLevel\<rparr>\<rparr> in
      if TrimSpace (LumeraConfig.ChainID (Lumera c)) = [] then
        Inl (Errorf ''lumera.chain_id is required'')
      else if TrimSpace (LumeraConfig.GRPCEndpoint (Lumera c)) = [] then
        Inl (Errorf ''lumera.grpc_endpoint is required'')
      else if TrimSpace (LumeraConfig.RPCEndpoint (Lumera c)) = [] then
        Inl (Errorf ''lumera.rpc_endpoint is required'')
      else if TrimSpace (LumeraConfig.KeyName (Lumera c)) = [] then
        Inl (Errorf ''lumera.key_name is required'')
      else if TrimSpace (ControllerConfig.ChainID (Config.Controller c)) = [] then
        Inl (Errorf ''controller.chain_id is required'')
      else if TrimSpace (ControllerConfig.GRPCEndpoint (Config.Controller c)) = [] then
        Inl (Errorf ''controller.grpc_endpoint is required'')
      else if TrimSpace (ControllerConfig.RPCEndpoint (Config.Controller c)) = [] then
        Inl (Errorf ''controller.rpc_endpoint is required'')
      else if TrimSpace (ControllerConfig.KeyName (Config.Controller c)) = [] then
        Inl (Errorf ''controller.key_name is required'')
      else if TrimSpace (KeyringBackend (Config.Controller c)) = [] then
        Inl (Errorf ''controller.keyring_backend is required'')
      else if TrimSpace (ControllerConfig.AccountHRP (Config.Controller c)) = [] then
        Inl (Errorf ''controller.account_hrp is required'')
      else if TrimSpace (ControllerConfig.ConnectionID (Config.Controller c)) = [] then
        Inl (Errorf ''controller.connection_id is required'')
      else if TrimSpace (KeyringPassphrasePlain (Config.Controller c)) \<noteq> [] \<and>
              TrimSpace (KeyringPassphraseFile (Config.Controller c)) \<noteq> [] then
        Inl (Errorf (''only one of controller.keyring_passphrase_plain or '' @
                     ''controller.keyring_passphrase_file may be set''))
      else
       (let backend = ToLower (TrimSpace (KeyringBackend (Config.Controller c))) in
        if \<not> (backend = ''os'' \<or> backend = ''file'' \<or> backend = ''test'') then
          Inl (Errorf ''controller.keyring_backend must be one of: os, file, test'')
        else
         (let c = c\<lparr>Config.Controller := (Config.Controller c)\<lparr>KeyringBackend := backend\<rparr>\<rparr> in
          if backend = ''file'' \<and> TrimSpace (KeyringDir (Config.Controller c)) = [] then
            Inl (Errorf ''controller.keyring_dir is required for file backend'')
          else if TrimSpace (KeyringPassphraseFile (Config.Controller c)) \<noteq> [] then
            (case ReadFile h (KeyringPassphraseFile (Config.Controller c)) of
               Inl err \<Rightarrow> Inl (wrapf ''read controller.keyring_passphrase_file: '' err)
             | Inr b \<Rightarrow>
                 if TrimSpace b = [] then
                   Inl (Errorf ''controller.keyring_passphrase_file is empty'')
                 else Inr c)
          else Inr c))))"

definition LoadConfig :: "host \<Rightarrow> string \<Rightarrow> error + Config" where
  "LoadConfig h path =
     (case DecodeFile h path of
        Inl err \<Rightarrow> Inl (wrapf ''decode config: '' err)
      | Inr cfg \<Rightarrow>
     (case ExpandPaths h cfg of
        Inl err \<Rightarrow> Inl err
      | Inr cfg \<Rightarrow> Validate h cfg))"

section \<open>Shared command helpers\<close>

text \<open>
  \<^verbatim>\<open>resolveOptionalArg\<close> accepts either a flag or a positional value for a field.
  An unset string flag holds its default, the empty string.
\<close>

definition resolveOptionalArg :: "string \<Rightarrow> string list \<Rightarrow> string \<Rightarrow> error + string" where
  "resolveOptionalArg flagValue args name =
     (let flagValue = TrimSpace flagValue in
      if flagValue \<noteq> [] then
        (if length args > 0
         then Inl (Errorf (name @ '' provided both as flag and argument''))
         else Inr flagValue)
      else if length args > 0 then Inr (TrimSpace (args ! 0))
      else Inl (Errorf (name @ '' is required'')))"

definition loadConfig :: "host \<Rightarrow> app \<Rightarrow> error + Config" where
  "loadConfig h a =
     (let path = TrimSpace (configPath a) in
      if path = [] then Inl (Errorf ''config path is required'')
      else
       (let path = Clean h path in
        case LoadConfig h path of
          Inl err \<Rightarrow> Inl err
        | Inr cfg \<Rightarrow> Inr cfg))"

section \<open>Runs: the calls a function makes and what it returns\<close>

text \<open>
  A function that talks to a collaborator is modelled by the list of calls it makes, in
  order, together with its result. \<open>andThen\<close> is Go's \<^verbatim>\<open>if err != nil { return err }\<close>
  between two steps; \<open>deferring\<close> is a \<^verbatim>\<open>defer\<close>: the calls are made when the enclosing
  function returns, whatever it returns.
\<close>

type_synonym 'a run = "call list \<times> (error + 'a)"

definition lift :: "error + 'a \<Rightarrow> 'a run" where
  "lift res = ([], res)"

definition fail :: "error \<Rightarrow> 'a run" where
  "fail err = ([], Inl err)"

definition invoke :: "call \<Rightarrow> error + 'a \<Rightarrow> 'a run" where
  "invoke c res = ([c], res)"

definition andThen :: "'a run \<Rightarrow> ('a \<Rightarrow> 'b run) \<Rightarrow> 'b run" where
  "andThen m f =
     (case m of
        (t, Inl err) \<Rightarrow> (t, Inl err)
      | (t, Inr x) \<Rightarrow> (case f x of (t', res) \<Rightarrow> (t @ t', res)))"

definition wrapping :: "string \<Rightarrow> 'a run \<Rightarrow> 'a run" where
  "wrapping prefix m =
     (case m of
        (t, Inl err) \<Rightarrow> (t, Inl (wrapf prefix err))
      | (t, Inr x) \<Rightarrow> (t, Inr x))"

definition deferring :: "call list \<Rightarrow> 'a run \<Rightarrow> 'a run" where
  "deferring cs m = (case m of (t, res) \<Rightarrow> (t @ cs, res))"

definition writeJSON :: "remote \<Rightarrow> payload \<Rightarrow> unit run" where
  "writeJSON r p = invoke (WriteJSONCall p) (Encode r p)"

section \<open>The cascade client and its key store\<close>

definition defaultCascadeTimeout :: nat where
  "defaultCascadeTimeout = 30 * 1000000000"

definition resolvePassphrase :: "host \<Rightarrow> string \<Rightarrow> string \<Rightarrow> error + string" where
  "resolvePassphrase h plain0 filePath0 =
     (let plain = TrimSpace plain0; filePath = TrimSpace filePath0 in
      if plain \<noteq> [] \<and> filePath \<noteq> [] then
        Inl (Errorf ''only one of keyring passphrase plain/file may be set'')
      else if plain \<noteq> [] then Inr plain
      else if filePath = [] then Inr []
      else
       (case ReadFile h filePath of
          Inl err \<Rightarrow> Inl (wrapf ''read keyring passphrase file: '' err)
        | Inr file \<Rightarrow>
           (let pass = TrimSpace file in
            if pass = [] then Inl (Errorf ''keyring passphrase file is empty'')
            else Inr pass)))"

definition passphraseReader :: "string \<Rightarrow> repeatReader option" where
  "passphraseReader passphrase =
     (if passphrase = [] then None
      else Some \<lparr>data = passphrase @ [CHR 0x0A], pos = 0\<rparr>)"

definition keyringAppName :: "host \<Rightarrow> ControllerConfig \<Rightarrow> string" where
  "keyringAppName h cfg =
     (if Binary cfg \<noteq> [] then Base h (Binary cfg)
      else if ControllerConfig.ChainID cfg \<noteq> [] then ControllerConfig.ChainID cfg
      else ''lumera'')"

definition newControllerKeyring :: "host \<Rightarrow> remote \<Rightarrow> ControllerConfig \<Rightarrow> keyring run" where
  "newControllerKeyring h r cfg =
     andThen (lift (resolvePassphrase h (KeyringPassphrasePlain cfg) (KeyringPassphraseFile cfg)))
       (\<lambda>passphrase.
         let dir0 = TrimSpace (KeyringDir cfg);
             dir = (if dir0 = [] \<and> EqualFold (KeyringBackend cfg) ''test'' = Some True
                    then TrimSpace (Home cfg) else dir0);
             params = \<lparr>AppName = keyringAppName h cfg,
                       Backend = KeyringBackend cfg,
                       Dir = dir,
                       Input = passphraseReader passphrase\<rparr>
         in wrapping ''init keyring: '' (invoke (NewKeyringCall params) (NewKeyring r params)))"

definition NewCascadeClient :: "host \<Rightarrow> remote \<Rightarrow> Config \<Rightarrow> Client run" where
  "NewCascadeClient h r cfg =
     andThen (newControllerKeyring h r (Config.Controller cfg)) (\<lambda>controllerKR.
     andThen (wrapping ''controller key type: ''
                (lift (validateKeyType r controllerKR
                         (ControllerConfig.KeyName (Config.Controller cfg)) ''controller''))) (\<lambda>_.
     andThen (wrapping ''lumera key type: ''
                (lift (validateKeyType r controllerKR
                         (LumeraConfig.KeyName (Lumera cfg)) ''lumera''))) (\<lambda>_.
     andThen (wrapping ''derive controller address: ''
                (invoke (AddressFromKeyCall controllerKR
                           (ControllerConfig.KeyName (Config.Controller cfg))
                           (ControllerConfig.AccountHRP (Config.Controller cfg)))
                        (AddressFromKey r controllerKR
                           (ControllerConfig.KeyName (Config.Controller cfg))
                           (ControllerConfig.AccountHRP (Config.Controller cfg))))) (\<lambda>ownerAddr.
     andThen (wrapping ''derive lumera address: ''
                (invoke (AddressFromKeyCall controllerKR
                           (LumeraConfig.KeyName (Lumera cfg)) ''lumera'')
                        (AddressFromKey r controllerKR
                           (LumeraConfig.KeyName (Lumera cfg)) ''lumera''))) (\<lambda>lumeraAddr.
       let cascCfg = \<lparr>CascadeConfig.ChainID = LumeraConfig.ChainID (Lumera cfg),
                       GRPCAddr = LumeraConfig.GRPCEndpoint (Lumera cfg),
                       Address = lumeraAddr,
                       KeyName = LumeraConfig.KeyName (Lumera cfg),
                       ICAOwnerKeyName = ControllerConfig.KeyName (Config.Controller cfg),
                       ICAOwnerHRP = ControllerConfig.AccountHRP (Config.Controller cfg),
                       Timeout = defaultCascadeTimeout,
                       LogLevel = LumeraConfig.LogLevel (Lumera cfg)\<rparr>
       in
     andThen (invoke (CascadeNewCall cascCfg controllerKR) (CascadeNew r cascCfg controllerKR))
       (\<lambda>casc.
         lift (Inr \<lparr>Cascade = casc, Client.Keyring = controllerKR,
                     OwnerAddress = ownerAddr\<rparr>)))))))"

text \<open>
  \<^verbatim>\<open>repeatReader.Read\<close> fills the buffer \<open>p\<close> from \<open>data\<close>, starting over at the end of
  \<open>data\<close>. The loop is written as it stands in the source; as nothing in the loop itself
  rules out an empty \<open>data\<close>, for which it would never advance, it is a partial function,
  and \<open>None\<close> means that it does not return. The result is the buffer, the count \<open>n\<close> and
  the new position. Positions are natural numbers: a reader built by \<open>passphraseReader\<close>
  starts at 0, and \<open>Read\<close> keeps the position within \<open>data\<close> (shown below), so that the two
  slice expressions are in range.
\<close>

partial_function (option) readLoop ::
    "string \<Rightarrow> nat \<Rightarrow> string \<Rightarrow> nat \<Rightarrow> (string \<times> nat \<times> nat) option" where
  "readLoop d ps p n =
     (if n < length p then
        (let remaining0 = length d - ps;
             ps1 = (if remaining0 = 0 then 0 else ps);
             remaining = (if remaining0 = 0 then length d else remaining0);
             chunk = (if remaining > length p - n then length p - n else remaining);
             p1 = take n p @ take chunk (drop ps1 d) @ drop (n + chunk) p
         in readLoop d (ps1 + chunk) p1 (n + chunk))
      else Some (p, n, ps))"

definition EOF :: error where
  "EOF = Errorf ''EOF''"

text \<open>
  \<open>Read r p\<close> returns the buffer after the call, the count and the error
  (\<open>None\<close> for \<^verbatim>\<open>nil\<close>), and the reader after the call.
\<close>

definition Read ::
    "repeatReader \<Rightarrow> string \<Rightarrow> ((string \<times> nat \<times> error option) \<times> repeatReader) option" where
  "Read r p =
     (if length (data r) = 0 then Some ((p, 0, Some EOF), r)
      else
       (case readLoop (data r) (pos r) p 0 of
          None \<Rightarrow> None
        | Some (p1, n, ps) \<Rightarrow> Some ((p1, n, None), r\<lparr>pos := ps\<rparr>)))"

section \<open>The ledger clients\<close>

definition defaultGRPCTimeout :: nat where
  "defaultGRPCTimeout = 30 * 1000000000"

definition defaultMaxGRPCMsgSize :: nat where
  "defaultMaxGRPCMsgSize = 10 * 1024 * 1024"

definition NewLumeraClient ::
    "remote \<Rightarrow> Config \<Rightarrow> keyring \<Rightarrow> string \<Rightarrow> blockchain_client run" where
  "NewLumeraClient r cfg kr keyName =
     (let bcCfg = \<lparr>BlockchainConfig.ChainID = LumeraConfig.ChainID (Lumera cfg),
                   GRPCAddr = LumeraConfig.GRPCEndpoint (Lumera cfg),
                   RPCEndpoint = LumeraConfig.RPCEndpoint (Lumera cfg),
                   AccountHRP = [],
                   FeeDenom = [],
                   GasPrice = None,
                   Timeout = defaultGRPCTimeout,
                   MaxRecvMsgSize = 10 * 1024 * 1024,
                   MaxSendMsgSize = 10 * 1024 * 1024\<rparr>
      in invoke (BlockchainNewCall bcCfg kr keyName) (BlockchainNew r bcCfg kr keyName))"

definition digit :: "nat \<Rightarrow> char" where
  "digit k = char_of (48 + k)"

function showNat :: "nat \<Rightarrow> string" where
  "showNat k = (if k < 10 then [digit k] else showNat (k div 10) @ [digit (k mod 10)])"
  by pat_completeness auto
termination
  by (relation "measure id") auto

definition LegacyZeroDec :: LegacyDec where
  "LegacyZeroDec = 0"

definition parseGasPrices :: "remote \<Rightarrow> string \<Rightarrow> error + (LegacyDec \<times> string)" where
  "parseGasPrices r v =
     (let trimmed = TrimSpace v in
      if trimmed = [] then Inr (LegacyZeroDec, [])
      else
       (case ParseDecCoins r trimmed of
          Inl err \<Rightarrow> Inl err
        | Inr coins \<Rightarrow>
            if length coins = 0 then Inr (LegacyZeroDec, [])
            else if length coins > 1 then
              Inl (Errorf (''expected a single gas price, got '' @ showNat (length coins) @
                           '' entries''))
            else Inr (Amount (coins ! 0), Denom (coins ! 0))))"

text \<open>
  \<^verbatim>\<open>NewICAController\<close> first refuses a nil context, configuration or key store; the
  commands never pass one, and the model has no nil for them.
\<close>

definition NewICAController :: "remote \<Rightarrow> Config \<Rightarrow> keyring \<Rightarrow> Controller run" where
  "NewICAController r cfg kr =
     andThen (wrapping ''parse controller.gas_prices: ''
                (lift (parseGasPrices r (GasPrices (Config.Controller cfg))))) (\<lambda>(gasPrice, feeDenom).
       let controllerCfg =
             \<lparr>BlockchainConfig.ChainID = ControllerConfig.ChainID (Config.Controller cfg),
              GRPCAddr = ControllerConfig.GRPCEndpoint (Config.Controller cfg),
              RPCEndpoint = ControllerConfig.RPCEndpoint (Config.Controller cfg),
              AccountHRP = ControllerConfig.AccountHRP (Config.Controller cfg),
              FeeDenom = feeDenom,
              GasPrice = Some gasPrice,
              Timeout = defaultGRPCTimeout,
              MaxRecvMsgSize = defaultMaxGRPCMsgSize,
              MaxSendMsgSize = defaultMaxGRPCMsgSize\<rparr>;
           hostCfg =
             \<lparr>BlockchainConfig.ChainID = LumeraConfig.ChainID (Lumera cfg),
              GRPCAddr = LumeraConfig.GRPCEndpoint (Lumera cfg),
              RPCEndpoint = LumeraConfig.RPCEndpoint (Lumera cfg),
              AccountHRP = [],
              FeeDenom = [],
              GasPrice = None,
              Timeout = defaultGRPCTimeout,
              MaxRecvMsgSize = defaultMaxGRPCMsgSize,
              MaxSendMsgSize = defaultMaxGRPCMsgSize\<rparr>;
           icaCfg =
             \<lparr>ICAConfig.Controller = controllerCfg,
              Host = hostCfg,
              ICAConfig.Keyring = kr,
              KeyName = ControllerConfig.KeyName (Config.Controller cfg),
              HostKeyName = LumeraConfig.KeyName (Lumera cfg),
              ConnectionID = ControllerConfig.ConnectionID (Config.Controller cfg),
              CounterpartyConnectionID =
                ControllerConfig.CounterpartyConnectionID (Config.Controller cfg)\<rparr>
       in
     andThen (invoke (ICANewControllerCall icaCfg) (ICANewController r icaCfg)) (\<lambda>i.
       lift (Inr \<lparr>inner = Some i\<rparr>)))"

definition Close :: "Controller \<Rightarrow> call list" where
  "Close c = (case inner c of None \<Rightarrow> [] | Some i \<Rightarrow> [ICACloseCall i])"

definition OwnerAddress_of :: "remote \<Rightarrow> Controller \<Rightarrow> string" where
  "OwnerAddress_of r c = (case inner c of None \<Rightarrow> [] | Some i \<Rightarrow> InnerOwnerAddress r i)"

definition AppPubkey_of :: "remote \<Rightarrow> Controller \<Rightarrow> string" where
  "AppPubkey_of r c = (case inner c of None \<Rightarrow> [] | Some i \<Rightarrow> InnerAppPubkey r i)"

definition EnsureICAAddress :: "remote \<Rightarrow> Controller \<Rightarrow> string run" where
  "EnsureICAAddress r c =
     (case inner c of
        None \<Rightarrow> fail (Errorf ''ica controller is not initialized'')
      | Some i \<Rightarrow> invoke (EnsureICAAddressCall i) (InnerEnsureICAAddress r i))"

definition ICAAddress :: "remote \<Rightarrow> Controller \<Rightarrow> string run" where
  "ICAAddress r c =
     (case inner c of
        None \<Rightarrow> fail (Errorf ''ica controller is not initialized'')
      | Some i \<Rightarrow> invoke (ICAAddressCall i) (InnerICAAddress r i))"

definition SendApproveAction :: "remote \<Rightarrow> Controller \<Rightarrow> MsgApproveAction \<Rightarrow> string run" where
  "SendApproveAction r c msg =
     (case inner c of
        None \<Rightarrow> fail (Errorf ''ica controller is not initialized'')
      | Some i \<Rightarrow> invoke (SendApproveActionCall i msg) (InnerSendApproveAction r i msg))"

section \<open>Commands\<close>

text \<open>
  Each command is the \<^verbatim>\<open>RunE\<close> function of the source: its arguments are the flag
  variables as the command line set them and the positional arguments. The shared deadline
  of \<^verbatim>\<open>commandContext\<close> is not a value of the model; when it elapses, the call in flight
  answers with an error.
\<close>

subsection \<open>upload\<close>

definition uploadCmd ::
    "host \<Rightarrow> remote \<Rightarrow> app \<Rightarrow> string \<Rightarrow> string \<Rightarrow> bool \<Rightarrow> string list \<Rightarrow> unit run" where
  "uploadCmd h r a filePathFlag actionID public args =
     andThen (lift (resolveOptionalArg filePathFlag args ''file'')) (\<lambda>filePath.
     andThen (lift (loadConfig h a)) (\<lambda>cfg.
     andThen (lift (Abs h filePath)) (\<lambda>absPath.
     andThen (NewCascadeClient h r cfg) (\<lambda>cascClient.
     deferring [CascadeCloseCall (Cascade cascClient)]
      (if TrimSpace actionID \<noteq> [] then
         andThen (NewLumeraClient r cfg (Client.Keyring cascClient)
                    (ControllerConfig.KeyName (Config.Controller cfg))) (\<lambda>bc.
         deferring [BlockchainCloseCall bc]
          (andThen (invoke (GetActionCall bc actionID) (GetAction r bc actionID)) (\<lambda>action.
             if State action \<noteq> ActionStatePending r then
               fail (Errorf (''action '' @ ID action @ '' state is '' @ State action @
                             ''; expected '' @ ActionStatePending r))
             else
              (let signer = TrimSpace (Action.Creator action) in
               andThen (invoke (UploadToSupernodeCall (Cascade cascClient) (ID action) absPath signer)
                          (UploadToSupernode r (Cascade cascClient) (ID action) absPath signer))
                 (\<lambda>taskID.
                   let payload0 =
                         [(''status'', JString ''ok''),
                          (''action_id'', JString (ID action)),
                          (''tx_hash'', JString []),
                          (''task_id'', JString taskID),
                          (''ica_address'', JString (Action.Creator action)),
                          (''ica_owner_address'', JString (OwnerAddress cascClient)),
                          (''file'', JString absPath)];
                       payload =
                         (case Metadata action of
                            CascadeMetadataPtr (Some meta) \<Rightarrow>
                              payload0 @ [(''is_public'', JBool (Public meta))]
                          | _ \<Rightarrow> payload0)
                   in writeJSON r payload)))))
       else
         andThen (NewICAController r cfg (Client.Keyring cascClient)) (\<lambda>controller.
         deferring (Close controller)
          (andThen (EnsureICAAddress r controller) (\<lambda>icaAddr.
             let opts = \<lparr>ICACreatorAddress = icaAddr,
                         AppPubkey = AppPubkey_of r controller,
                         ICASendFunc = controller,
                         PublicOption = public\<rparr>
             in
           andThen (invoke (CascadeUploadCall (Cascade cascClient) icaAddr absPath opts)
                      (CascadeUpload r (Cascade cascClient) icaAddr absPath opts)) (\<lambda>res.
             writeJSON r
               [(''status'', JString ''ok''),
                (''action_id'', JString (CascadeResult.ActionID res)),
                (''tx_hash'', JString (TxHash res)),
                (''task_id'', JString (CascadeResult.TaskID res)),
                (''ica_address'', JString icaAddr),
                (''ica_owner_address'', JString (OwnerAddress_of r controller)),
                (''is_public'', JBool public),
                (''file'', JString absPath)])))))))))"

subsection \<open>action approve\<close>

definition approveCmd ::
    "host \<Rightarrow> remote \<Rightarrow> app \<Rightarrow> string \<Rightarrow> string \<Rightarrow> string list \<Rightarrow> unit run" where
  "approveCmd h r a actionIDFlag icaAddressFlag args =
     andThen (lift (resolveOptionalArg actionIDFlag args ''action-id'')) (\<lambda>actionID.
     andThen (lift (loadConfig h a)) (\<lambda>cfg.
     andThen (NewCascadeClient h r cfg) (\<lambda>cascClient.
     deferring [CascadeCloseCall (Cascade cascClient)]
      (andThen (NewICAController r cfg (Client.Keyring cascClient)) (\<lambda>controller.
       deferring (Close controller)
        (andThen (if TrimSpace icaAddressFlag = [] then ICAAddress r controller
                  else lift (Inr icaAddressFlag)) (\<lambda>icaAddress.
         andThen (invoke (CreateApproveActionMessageCall actionID icaAddress)
                    (CreateApproveActionMessage r actionID icaAddress)) (\<lambda>msg.
         andThen (SendApproveAction r controller msg) (\<lambda>txHash.
           writeJSON r
             [(''status'', JString ''ok''),
              (''action_id'', JString actionID),
              (''tx_hash'', JString txHash),
              (''ica_address'', JString icaAddress),
              (''ica_owner_address'', JString (OwnerAddress_of r controller))])))))))))"

subsection \<open>action status\<close>

text \<open>\<^verbatim>\<open>base64.StdEncoding.EncodeToString\<close>: the standard alphabet, with padding.\<close>

definition encodeStd :: string where
  "encodeStd = ''ABCDEFGHIJKLMNOPQRSTUVWXYZabcdefghijklmnopqrstuvwxyz0123456789+/''"

fun EncodeToString :: "string \<Rightarrow> string" where
  "EncodeToString (a # b # c # src) =
     (let val = (of_char a :: int) * 0x10000 + of_char b * 0x100 + of_char c in
      [encodeStd ! nat (val div 0x40000 mod 0x40), encodeStd ! nat (val div 0x1000 mod 0x40),
       encodeStd ! nat (val div 0x40 mod 0x40), encodeStd ! nat (val mod 0x40)] @
      EncodeToString src)"
| "EncodeToString [a, b] =
     (let val = (of_char a :: int) * 0x10000 + of_char b * 0x100 in
      [encodeStd ! nat (val div 0x40000 mod 0x40), encodeStd ! nat (val div 0x1000 mod 0x40),
       encodeStd ! nat (val div 0x40 mod 0x40), CHR ''=''])"
| "EncodeToString [a] =
     (let val = (of_char a :: int) * 0x10000 in
      [encodeStd ! nat (val div 0x40000 mod 0x40), encodeStd ! nat (val div 0x1000 mod 0x40),
       CHR ''='', CHR ''=''])"
| "EncodeToString [] = []"

definition statusCmd ::
    "host \<Rightarrow> remote \<Rightarrow> app \<Rightarrow> string \<Rightarrow> string list \<Rightarrow> unit run" where
  "statusCmd h r a actionIDFlag args =
     andThen (lift (resolveOptionalArg actionIDFlag args ''action-id'')) (\<lambda>actionID.
     andThen (lift (loadConfig h a)) (\<lambda>cfg.
     andThen (NewCascadeClient h r cfg) (\<lambda>cascClient.
     deferring [CascadeCloseCall (Cascade cascClient)]
      (andThen (NewLumeraClient r cfg (Client.Keyring cascClient)
                  (ControllerConfig.KeyName (Config.Controller cfg))) (\<lambda>bc.
       deferring [BlockchainCloseCall bc]
        (andThen (invoke (GetActionCall bc actionID) (GetAction r bc actionID)) (\<lambda>action.
           let payload0 =
                 [(''status'', JString ''ok''),
                  (''action_id'', JString (ID action)),
                  (''state'', JString (State action)),
                  (''type'', JString (Type action)),
                  (''creator'', JString (Action.Creator action)),
                  (''price'', JString (Price action)),
                  (''block_height'', JInt (BlockHeight action)),
                  (''expires_at'', JInt (ExpirationTime action))];
               payload1 =
                 (case Metadata action of
                    CascadeMetadataPtr (Some meta) \<Rightarrow>
                      payload0 @ [(''is_public'', JBool (Public meta))]
                  | _ \<Rightarrow> payload0);
               payload =
                 (if length (Action.AppPubkey action) > 0
                  then payload1 @
                         [(''app_pubkey'', JString (EncodeToString (Action.AppPubkey action)))]
                  else payload1)
           in writeJSON r payload)))))))"

subsection \<open>download\<close>

text \<open>
  The best-effort block of the download command: the calls it makes, the file name it
  finds (empty when any step fails) and the calls it defers to the end of the command.
\<close>

definition lookupFileName ::
    "remote \<Rightarrow> Config \<Rightarrow> Client \<Rightarrow> string \<Rightarrow> call list \<times> string \<times> call list" where
  "lookupFileName r cfg cascClient actionID =
     (case NewLumeraClient r cfg (Client.Keyring cascClient)
             (ControllerConfig.KeyName (Config.Controller cfg)) of
        (t, Inl err) \<Rightarrow> (t, [], [])
      | (t, Inr bc) \<Rightarrow>
         (case GetAction r bc actionID of
            Inl err \<Rightarrow> (t @ [GetActionCall bc actionID], [], [BlockchainCloseCall bc])
          | Inr action \<Rightarrow>
              (t @ [GetActionCall bc actionID],
               (case Metadata action of
                  CascadeMetadataPtr (Some meta) \<Rightarrow> FileName meta
                | _ \<Rightarrow> []),
               [BlockchainCloseCall bc])))"

definition downloadCmd ::
    "host \<Rightarrow> remote \<Rightarrow> app \<Rightarrow> string \<Rightarrow> string \<Rightarrow> string list \<Rightarrow> unit run" where
  "downloadCmd h r a actionIDFlag outDirFlag args =
     andThen (lift (resolveOptionalArg actionIDFlag args ''action-id'')) (\<lambda>actionID.
     andThen (lift (loadConfig h a)) (\<lambda>cfg.
       let outDir = Clean h outDirFlag in
     andThen (lift (MkdirAll h outDir)) (\<lambda>_.
     andThen (NewCascadeClient h r cfg) (\<lambda>cascClient.
     deferring [CascadeCloseCall (Cascade cascClient)]
      (andThen (NewICAController r cfg (Client.Keyring cascClient)) (\<lambda>controller.
       deferring (Close controller)
        (andThen (invoke (DownloadCall (Cascade cascClient) actionID outDir
                            (OwnerAddress_of r controller))
                    (Download r (Cascade cascClient) actionID outDir
                       (OwnerAddress_of r controller))) (\<lambda>res.
           case lookupFileName r cfg cascClient actionID of
             (t, fileName, deferred) \<Rightarrow>
               deferring deferred
                (andThen (t, Inr ()) (\<lambda>_.
                   writeJSON r
                     [(''status'', JString ''ok''),
                      (''action_id'', JString (DownloadResult.ActionID res)),
                      (''task_id'', JString (DownloadResult.TaskID res)),
                      (''output_path'', JString (OutputPath res)),
                      (''file_name'', JString fileName)]))))))))))"

section \<open>A sample deployment\<close>

text \<open>
  A concrete configuration, machine and set of services, on which the statements below
  are exercised. The configuration file is \<^verbatim>\<open>config.toml\<close>; the host ledger knows the
  actions \<^verbatim>\<open>7\<close> (pending, with cascade metadata) and \<^verbatim>\<open>8\<close> (done, with other
  metadata); no interchain account is registered yet.
\<close>

definition sampleConfig :: Config where
  "sampleConfig =
     \<lparr>Lumera =
        \<lparr>LumeraConfig.ChainID = ''lumera-testnet-2'',
         GRPCEndpoint = ''localhost:9090'',
         RPCEndpoint = ''http://localhost:26657'',
         LogLevel = ''info'',
         KeyName = ''alice''\<rparr>,
      Config.Controller =
        \<lparr>ControllerConfig.ChainID = ''osmo-test-5'',
         GRPCEndpoint = ''localhost:9190'',
         RPCEndpoint = ''http://localhost:26757'',
         Binary = ''osmosisd'',
         Home = ''~/.osmosisd'',
         KeyName = ''alice'',
         KeyringBackend = ''test'',
         KeyringDir = [],
         KeyringPassphrasePlain = [],
         KeyringPassphraseFile = [],
         GasPrices = ''0.03uosmo'',
         AccountHRP = ''osmo'',
         ConnectionID = ''connection-0'',
         CounterpartyConnectionID = ''connection-9''\<rparr>\<rparr>"

definition sampleHostWith :: "Config \<Rightarrow> host" where
  "sampleHostWith cfg =
     \<lparr>DecodeFile = (\<lambda>path. if path = ''config.toml'' then Inr cfg
                              else Inl (Errorf ''no such file'')),
      UserHomeDir = Inr ''/home/alice'',
      ReadFile = (\<lambda>path. if path = ''/home/alice/pass.txt'' then Inr ''hunter2''
                            else Inl (Errorf ''no such file'')),
      Join = (\<lambda>dir rest. dir @ ''/'' @ rest),
      Clean = (\<lambda>path. path),
      Base = (\<lambda>path. path),
      Abs = (\<lambda>path. Inr (''/work/'' @ path)),
      MkdirAll = (\<lambda>path. Inr ())\<rparr>"

definition sampleHost :: host where
  "sampleHost = sampleHostWith sampleConfig"

definition pendingAction :: Action where
  "pendingAction =
     \<lparr>ID = ''7'', State = ''ACTION_STATE_PENDING'', Creator = ''lumera1ica'',
      Metadata = CascadeMetadataPtr (Some \<lparr>Public = True, FileName = ''photo.jpg''\<rparr>),
      Type = ''ACTION_TYPE_CASCADE'', Price = ''10000ulume'', BlockHeight = 120,
      ExpirationTime = 1767225600, AppPubkey = ''pubkey''\<rparr>"

definition doneAction :: Action where
  "doneAction =
     \<lparr>ID = ''8'', State = ''ACTION_STATE_DONE'', Creator = ''lumera1ica'',
      Metadata = OtherMetadata,
      Type = ''ACTION_TYPE_SENSE'', Price = ''20000ulume'', BlockHeight = 90,
      ExpirationTime = 1767139200, AppPubkey = []\<rparr>"

definition sampleRemote :: remote where
  "sampleRemote =
     \<lparr>ActionStatePending = ''ACTION_STATE_PENDING'',
      NewKeyring = (\<lambda>params. Inr (KeyringHandle 1)),
      validateKeyType = (\<lambda>kr name section. Inr ()),
      AddressFromKey = (\<lambda>kr name hrp. Inr (hrp @ ''1'' @ name)),
      CascadeNew = (\<lambda>cfg kr. Inr (CascadeHandle 1)),
      BlockchainNew = (\<lambda>cfg kr name. Inr (BlockchainHandle 1)),
      GetAction = (\<lambda>bc actionID.
                     if actionID = ''7'' then Inr pendingAction
                     else if actionID = ''8'' then Inr doneAction
                     else Inl (Errorf ''action not found'')),
      UploadToSupernode = (\<lambda>c actionID path signer. Inr ''task-1''),
      CascadeUpload = (\<lambda>c creator path opts.
                         Inr \<lparr>CascadeResult.ActionID = ''9'', TxHash = ''ABCD'', TaskID = ''task-2''\<rparr>),
      Download = (\<lambda>c actionID outDir signer.
                    Inr \<lparr>DownloadResult.ActionID = actionID, TaskID = ''task-3'',
                         OutputPath = outDir @ ''/'' @ actionID\<rparr>),
      ParseDecCoins = (\<lambda>v. Inr [\<lparr>Denom = ''uosmo'', Amount = 30000000000000000\<rparr>]),
      ICANewController = (\<lambda>cfg. Inr (ICAHandle 1)),
      InnerOwnerAddress = (\<lambda>i. ''osmo1alice''),
      InnerAppPubkey = (\<lambda>i. ''pubkey''),
      InnerEnsureICAAddress = (\<lambda>i. Inr ''lumera1ica''),
      InnerICAAddress = (\<lambda>i. Inl (Errorf ''interchain account not found'')),
      InnerSendApproveAction = (\<lambda>i msg. Inr ''EF01''),
      CreateApproveActionMessage =
        (\<lambda>actionID creator. Inr \<lparr>MsgApproveAction.Creator = creator, ActionId = actionID\<rparr>),
      Encode = (\<lambda>p. Inr ())\<rparr>"

text \<open>The sample configuration as \<open>LoadConfig\<close> returns it: the home directory expanded.\<close>

definition sampleLoaded :: Config where
  "sampleLoaded =
     sampleConfig\<lparr>Config.Controller :=
       (Config.Controller sampleConfig)\<lparr>Home := ''/home/alice/.osmosisd''\<rparr>\<rparr>"

definition sampleApp :: app where
  "sampleApp = \<lparr>configPath = ''config.toml''\<rparr>"

text \<open>The client and the controller that the sample services hand out.\<close>

definition sampleClient :: Client where
  "sampleClient =
     \<lparr>Cascade = CascadeHandle 1, Client.Keyring = KeyringHandle 1,
      OwnerAddress = ''osmo1alice''\<rparr>"

definition sampleController :: Controller where
  "sampleController = \<lparr>inner = Some (ICAHandle 1)\<rparr>"

section \<open>Vocabulary of the statements\<close>

subsection \<open>Configuration\<close>

text \<open>
  The required settings, with the names the error messages use, in the order in which
  \<open>Validate\<close> examines them; \<open>firstBlank\<close> is the name of the first one that is blank.
\<close>

definition requiredFields :: "Config \<Rightarrow> (string \<times> string) list" where
  "requiredFields c =
     [(''lumera.chain_id'', LumeraConfig.ChainID (Lumera c)),
      (''lumera.grpc_endpoint'', LumeraConfig.GRPCEndpoint (Lumera c)),
      (''lumera.rpc_endpoint'', LumeraConfig.RPCEndpoint (Lumera c)),
      (''lumera.key_name'', LumeraConfig.KeyName (Lumera c)),
      (''controller.chain_id'', ControllerConfig.ChainID (Config.Controller c)),
      (''controller.grpc_endpoint'', ControllerConfig.GRPCEndpoint (Config.Controller c)),
      (''controller.rpc_endpoint'', ControllerConfig.RPCEndpoint (Config.Controller c)),
      (''controller.key_name'', ControllerConfig.KeyName (Config.Controller c)),
      (''controller.keyring_backend'', KeyringBackend (Config.Controller c)),
      (''controller.account_hrp'', ControllerConfig.AccountHRP (Config.Controller c)),
      (''controller.connection_id'', ControllerConfig.ConnectionID (Config.Controller c))]"

definition firstBlank :: "Config \<Rightarrow> string option" where
  "firstBlank c = map_option fst (find (\<lambda>(n, v). TrimSpace v = []) (requiredFields c))"

definition bothPassphrases :: "Config \<Rightarrow> bool" where
  "bothPassphrases c =
     (TrimSpace (KeyringPassphrasePlain (Config.Controller c)) \<noteq> [] \<and>
      TrimSpace (KeyringPassphraseFile (Config.Controller c)) \<noteq> [])"

definition backendOf :: "Config \<Rightarrow> string" where
  "backendOf c = ToLower (TrimSpace (KeyringBackend (Config.Controller c)))"

definition passphraseFileUsable :: "host \<Rightarrow> Config \<Rightarrow> bool" where
  "passphraseFileUsable h c =
     (if TrimSpace (KeyringPassphraseFile (Config.Controller c)) = [] then True
      else (case ReadFile h (KeyringPassphraseFile (Config.Controller c)) of
              Inl err \<Rightarrow> False
            | Inr b \<Rightarrow> TrimSpace b \<noteq> []))"

text \<open>The configuration \<open>Validate\<close> hands back: log level and backend normalised.\<close>

definition normalised :: "Config \<Rightarrow> string \<Rightarrow> Config" where
  "normalised c lvl =
     c\<lparr>Lumera := (Lumera c)\<lparr>LumeraConfig.LogLevel := lvl\<rparr>,
       Config.Controller := (Config.Controller c)\<lparr>KeyringBackend := backendOf c\<rparr>\<rparr>"

subsection \<open>The passphrase reader\<close>

text \<open>
  \<open>cycle d i k\<close> is the stretch of \<open>k\<close> bytes that starts at offset \<open>i\<close> of \<open>d\<close> repeated
  for ever. \<open>reads r bufs\<close> calls \<open>Read\<close> once for each buffer of \<open>bufs\<close>, in order, each
  call on the reader the previous one left, and collects what each call returned.
\<close>

definition cycle :: "string \<Rightarrow> nat \<Rightarrow> nat \<Rightarrow> string" where
  "cycle d i k = map (\<lambda>j. d ! ((i + j) mod length d)) [0..<k]"

fun reads ::
    "repeatReader \<Rightarrow> string list \<Rightarrow> ((string \<times> nat \<times> error option) list \<times> repeatReader) option" where
  "reads r [] = Some ([], r)"
| "reads r (p # ps) =
     (case Read r p of
        None \<Rightarrow> None
      | Some (out, r1) \<Rightarrow>
         (case reads r1 ps of
            None \<Rightarrow> None
          | Some (outs, r2) \<Rightarrow> Some (out # outs, r2)))"

subsection \<open>Calls\<close>

text \<open>
  Kinds of call: the two ways in which bytes are sent to the storage mesh; the calls that
  only construct a client or look a key up; the registration of an interchain account;
  building and sending an approval message.
\<close>

definition isMeshUpload :: "call \<Rightarrow> bool" where
  "isMeshUpload c =
     (case c of
        UploadToSupernodeCall cl actionID path signer \<Rightarrow> True
      | CascadeUploadCall cl creator path opts \<Rightarrow> True
      | _ \<Rightarrow> False)"

definition isSetup :: "call \<Rightarrow> bool" where
  "isSetup c =
     (case c of
        NewKeyringCall params \<Rightarrow> True
      | AddressFromKeyCall kr name hrp \<Rightarrow> True
      | CascadeNewCall cfg kr \<Rightarrow> True
      | BlockchainNewCall cfg kr name \<Rightarrow> True
      | ICANewControllerCall cfg \<Rightarrow> True
      | _ \<Rightarrow> False)"

definition isRegistration :: "call \<Rightarrow> bool" where
  "isRegistration c = (case c of EnsureICAAddressCall i \<Rightarrow> True | _ \<Rightarrow> False)"

definition isApproval :: "call \<Rightarrow> bool" where
  "isApproval c =
     (case c of
        CreateApproveActionMessageCall actionID creator \<Rightarrow> True
      | SendApproveActionCall i msg \<Rightarrow> True
      | _ \<Rightarrow> False)"

text \<open>
  The best-effort look-up of the download command fails when the ledger client cannot be
  constructed, when the action cannot be fetched, or when the action's metadata is not a
  non-nil cascade metadata.
\<close>

definition lookupFails :: "remote \<Rightarrow> Config \<Rightarrow> Client \<Rightarrow> string \<Rightarrow> bool" where
  "lookupFails r cfg cascClient actionID =
     (case NewLumeraClient r cfg (Client.Keyring cascClient)
             (ControllerConfig.KeyName (Config.Controller cfg)) of
        (t, Inl err) \<Rightarrow> True
      | (t, Inr bc) \<Rightarrow>
         (case GetAction r bc actionID of
            Inl err \<Rightarrow> True
          | Inr action \<Rightarrow>
             (case Metadata action of
                CascadeMetadataPtr (Some meta) \<Rightarrow> False
              | _ \<Rightarrow> True)))"

section \<open>Properties\<close>

subsection \<open>Configuration: the order of the checks\<close>

lemma firstBlank_None_iff:
  "firstBlank c = None \<longleftrightarrow>
     TrimSpace (LumeraConfig.ChainID (Lumera c)) \<noteq> [] \<and>
     TrimSpace (LumeraConfig.GRPCEndpoint (Lumera c)) \<noteq> [] \<and>
     TrimSpace (LumeraConfig.RPCEndpoint (Lumera c)) \<noteq> [] \<and>
     TrimSpace (LumeraConfig.KeyName (Lumera c)) \<noteq> [] \<and>
     TrimSpace (ControllerConfig.ChainID (Config.Controller c)) \<noteq> [] \<and>
     TrimSpace (ControllerConfig.GRPCEndpoint (Config.Controller c)) \<noteq> [] \<and>
     TrimSpace (ControllerConfig.RPCEndpoint (Config.Controller c)) \<noteq> [] \<and>
     TrimSpace (ControllerConfig.KeyName (Config.Controller c)) \<noteq> [] \<and>
     TrimSpace (KeyringBackend (Config.Controller c)) \<noteq> [] \<and>
     TrimSpace (ControllerConfig.AccountHRP (Config.Controller c)) \<noteq> [] \<and>
     TrimSpace (ControllerConfig.ConnectionID (Config.Controller c)) \<noteq> []"
  by (simp add: firstBlank_def requiredFields_def)

lemma Validate_logLevel_error:
  "normalizeLogLevel (LumeraConfig.LogLevel (Lumera c)) = Inl e \<Longrightarrow> Validate h c = Inl e"
  by (simp add: Validate_def)

lemma Validate_firstBlank:
  assumes "normalizeLogLevel (LumeraConfig.LogLevel (Lumera c)) = Inr lvl"
    and "firstBlank c = Some n"
  shows "Validate h c = Inl (Errorf (n @ '' is required''))"
  using assms
  apply (cases "TrimSpace (LumeraConfig.ChainID (Lumera c)) = []")
   apply (simp add: Validate_def firstBlank_def requiredFields_def)
  apply (cases "TrimSpace (LumeraConfig.GRPCEndpoint (Lumera c)) = []")
   apply (simp add: Validate_def firstBlank_def requiredFields_def)
  apply (cases "TrimSpace (LumeraConfig.RPCEndpoint (Lumera c)) = []")
   apply (simp add: Validate_def firstBlank_def requiredFields_def)
  apply (cases "TrimSpace (LumeraConfig.KeyName (Lumera c)) = []")
   apply (simp add: Validate_def firstBlank_def requiredFields_def)
  apply (cases "TrimSpace (ControllerConfig.ChainID (Config.Controller c)) = []")
   apply (simp add: Validate_def firstBlank_def requiredFields_def)
  apply (cases "TrimSpace (ControllerConfig.GRPCEndpoint (Config.Controller c)) = []")
   apply (simp add: Validate_def firstBlank_def requiredFields_def)
  apply (cases "TrimSpace (ControllerConfig.RPCEndpoint (Config.Controller c)) = []")
   apply (simp add: Validate_def firstBlank_def requiredFields_def)
  apply (cases "TrimSpace (ControllerConfig.KeyName (Config.Controller c)) = []")
   apply (simp add: Validate_def firstBlank_def requiredFields_def)
  apply (cases "TrimSpace (KeyringBackend (Config.Controller c)) = []")
   apply (simp add: Validate_def firstBlank_def requiredFields_def)
  apply (cases "TrimSpace (ControllerConfig.AccountHRP (Config.Controller c)) = []")
   apply (simp add: Validate_def firstBlank_def requiredFields_def)
  apply (cases "TrimSpace (ControllerConfig.ConnectionID (Config.Controller c)) = []")
   apply (simp add: Validate_def firstBlank_def requiredFields_def)
  apply (simp add: firstBlank_def requiredFields_def)
  done

text \<open>Once the log level and the required settings are in order, the later checks decide.\<close>

lemma Validate_later_checks:
  assumes "normalizeLogLevel (LumeraConfig.LogLevel (Lumera c)) = Inr lvl"
    and "firstBlank c = None"
  shows "Validate h c =
     (if bothPassphrases c then
        Inl (Errorf (''only one of controller.keyring_passphrase_plain or '' @
                     ''controller.keyring_passphrase_file may be set''))
      else if \<not> (backendOf c = ''os'' \<or> backendOf c = ''file'' \<or> backendOf c = ''test'') then
        Inl (Errorf ''controller.keyring_backend must be one of: os, file, test'')
      else if backendOf c = ''file'' \<and> TrimSpace (KeyringDir (Config.Controller c)) = [] then
        Inl (Errorf ''controller.keyring_dir is required for file backend'')
      else if TrimSpace (KeyringPassphraseFile (Config.Controller c)) \<noteq> [] then
        (case ReadFile h (KeyringPassphraseFile (Config.Controller c)) of
           Inl err \<Rightarrow> Inl (wrapf ''read controller.keyring_passphrase_file: '' err)
         | Inr b \<Rightarrow>
             if TrimSpace b = [] then Inl (Errorf ''controller.keyring_passphrase_file is empty'')
             else Inr (normalised c lvl))
      else Inr (normalised c lvl))"
proof -
  note nb = assms(2)[unfolded firstBlank_None_iff]
  show ?thesis
    using assms(1) nb
    by (auto simp add: Validate_def Let_def bothPassphrases_def backendOf_def normalised_def
             split: sum.splits)
qed


lemma Validate_file_without_dir_fails:
  assumes "backendOf c = ''file''" and "TrimSpace (KeyringDir (Config.Controller c)) = []"
  shows "isl (Validate h c)"
proof (cases "normalizeLogLevel (LumeraConfig.LogLevel (Lumera c))")
  case (Inl e)
  then show ?thesis by (simp add: Validate_logLevel_error)
next
  case (Inr lvl)
  show ?thesis
  proof (cases "firstBlank c")
    case None
    with Inr assms show ?thesis by (simp add: Validate_later_checks)
  next
    case (Some n)
    with Inr show ?thesis by (simp add: Validate_firstBlank)
  qed
qed

lemma Validate_ok:
  assumes "normalizeLogLevel (LumeraConfig.LogLevel (Lumera c)) = Inr lvl"
    and "firstBlank c = None"
    and "\<not> bothPassphrases c"
    and "backendOf c = ''os'' \<or> backendOf c = ''file'' \<or> backendOf c = ''test''"
    and "backendOf c = ''file'' \<longrightarrow> TrimSpace (KeyringDir (Config.Controller c)) \<noteq> []"
    and "passphraseFileUsable h c"
  shows "Validate h c = Inr (normalised c lvl)"
  using assms(3-6)
  by (auto simp: Validate_later_checks[OF assms(1,2)] passphraseFileUsable_def
           split: if_splits sum.splits)

lemma LoadConfig_steps:
  assumes "DecodeFile h path = Inr cfg0" and "ExpandPaths h cfg0 = Inr cfg"
  shows "LoadConfig h path = Validate h cfg"
  using assms by (simp add: LoadConfig_def)

subsection \<open>Runs\<close>

lemma andThen_weak_cong: "m = m' \<Longrightarrow> andThen m f = andThen m' f"
  by simp

lemma run_simps:
  "andThen (t, Inl e) f = (t, Inl e)"
  "andThen (t, Inr x) f = (case f x of (t', res) \<Rightarrow> (t @ t', res))"
  "lift res = ([], res)"
  "fail e = ([], Inl e)"
  "invoke c res = ([c], res)"
  "wrapping prefix (t, Inl e) = (t, Inl (wrapf prefix e))"
  "wrapping prefix (t, Inr x) = (t, Inr x)"
  "deferring cs (t, res) = (t @ cs, res)"
  "writeJSON r p = ([WriteJSONCall p], Encode r p)"
  by (simp_all add: andThen_def lift_def fail_def invoke_def wrapping_def deferring_def
        writeJSON_def)

lemma Validate_Inr:
  assumes "Validate h c = Inr c'"
  shows "\<exists>lvl. normalizeLogLevel (LumeraConfig.LogLevel (Lumera c)) = Inr lvl \<and>
               c' = normalised c lvl"
proof (cases "normalizeLogLevel (LumeraConfig.LogLevel (Lumera c))")
  case (Inl e)
  with assms show ?thesis by (simp add: Validate_logLevel_error)
next
  case (Inr lvl)
  show ?thesis
  proof (cases "firstBlank c")
    case None
    from assms show ?thesis
      unfolding Validate_later_checks[OF Inr None]
      by (auto simp: Inr split: if_splits sum.splits)
  next
    case (Some n)
    with Inr assms show ?thesis by (simp add: Validate_firstBlank)
  qed
qed

lemma ExpandPaths_Lumera:
  assumes "ExpandPaths h c0 = Inr c"
  shows "Lumera c = Lumera c0"
  using assms by (auto simp: ExpandPaths_def split: sum.splits)

subsection \<open>The comparison with a constant returns\<close>

text \<open>
  The walk of \<open>EqualFold\<close> along the runes that fold together starts from the smaller of
  the two runes compared. From a rune below \<^verbatim>\<open>0x80\<close> it comes back after two or three
  steps, so a comparison with a string of such bytes, like the constant \<^verbatim>\<open>"test"\<close> of
  \<open>newControllerKeyring\<close>, always returns.
\<close>

lemma SimpleFold_loop_back:
  "SimpleFold 0x212A = 0x4B" "SimpleFold 0x017F = 0x53"
  by code_simp+

lemma SimpleFold_ascii:
  assumes "0 \<le> sr" "sr \<le> 0x7F"
  shows "SimpleFold sr = asciiFold sr"
  using assms by (simp add: SimpleFold_def MaxRune_def MaxASCII_def)

lemma foldWalk_stop: "\<not> (r \<noteq> sr \<and> r < tr) \<Longrightarrow> foldWalk sr tr r = Some r"
  by (subst foldWalk.simps) auto

lemma foldWalk_step: "r \<noteq> sr \<Longrightarrow> r < tr \<Longrightarrow> foldWalk sr tr r = foldWalk sr tr (SimpleFold r)"
  by (subst foldWalk.simps) simp

lemma foldWalk_ascii:
  assumes "0 \<le> sr" "sr \<le> 0x7F"
  shows "\<exists>r. foldWalk sr tr (SimpleFold sr) = Some r"
proof -
  have ret1: "\<exists>r. foldWalk sr tr x = Some r" if "SimpleFold x = sr" for x
  proof (cases "x \<noteq> sr \<and> x < tr")
    case True
    then have "foldWalk sr tr x = foldWalk sr tr sr" using that by (simp add: foldWalk_step)
    then show ?thesis by (simp add: foldWalk_stop)
  next
    case False
    then show ?thesis by (simp add: foldWalk_stop)
  qed
  have ret2: "\<exists>r. foldWalk sr tr x = Some r" if "SimpleFold (SimpleFold x) = sr" for x
  proof (cases "x \<noteq> sr \<and> x < tr")
    case True
    then have "foldWalk sr tr x = foldWalk sr tr (SimpleFold x)" by (simp add: foldWalk_step)
    with ret1[OF that] show ?thesis by simp
  next
    case False
    then show ?thesis by (simp add: foldWalk_stop)
  qed
  have two: "SimpleFold (SimpleFold sr) = sr \<or> SimpleFold (SimpleFold (SimpleFold sr)) = sr"
  proof -
    consider "sr = 0x4B" | "sr = 0x6B" | "sr = 0x53" | "sr = 0x73"
      | "sr \<noteq> 0x4B" "sr \<noteq> 0x6B" "sr \<noteq> 0x53" "sr \<noteq> 0x73" by blast
    then show ?thesis
    proof cases
      case 5
      then have "SimpleFold (SimpleFold sr) = sr"
        using assms by (auto simp: SimpleFold_def asciiFold_def MaxRune_def MaxASCII_def)
      then show ?thesis ..
    qed (simp_all add: SimpleFold_ascii asciiFold_def SimpleFold_loop_back)
  qed
  then show ?thesis
  proof
    assume "SimpleFold (SimpleFold sr) = sr"
    then show ?thesis by (rule ret1)
  next
    assume "SimpleFold (SimpleFold (SimpleFold sr)) = sr"
    then show ?thesis by (rule ret2)
  qed
qed

lemma DecodeRuneInString_ascii:
  assumes "(of_char c :: rune) < RuneSelf"
  shows "DecodeRuneInString (c # t) = (of_char c, 1)"
  using assms by simp

lemma equalFoldRunes_returns:
  assumes "list_all (\<lambda>c. (of_char c :: rune) < RuneSelf) t"
  shows "\<exists>b. equalFoldRunes rs t = Some b"
  using assms
proof (induction rs arbitrary: t)
  case Nil
  show ?case by auto
next
  case (Cons sr0 rs)
  show ?case
  proof (cases t)
    case Nil
    then show ?thesis by auto
  next
    case (Cons c t')
    with Cons.prems have c: "(of_char c :: rune) < RuneSelf"
      and t': "list_all (\<lambda>c. (of_char c :: rune) < RuneSelf) t'" by simp_all
    note d = DecodeRuneInString_ascii[OF c, of t']
    from Cons.IH[OF t'] obtain b where b: "equalFoldRunes rs t' = Some b" by blast
    let ?tr0 = "of_char c :: rune"
    have "?tr0 = int (of_char c)" by (simp only: of_nat_of_char)
    then have "0 \<le> ?tr0" by (metis of_nat_0_le_iff)
    moreover have "?tr0 \<le> 0x7F" using c by (simp add: RuneSelf_def)
    ultimately have bound: "0 \<le> ?tr0" "?tr0 \<le> 0x7F" by simp_all
    show ?thesis
    proof (cases "\<not> max sr0 ?tr0 < RuneSelf \<and> ?tr0 \<noteq> sr0")
      case True
      then have m: "min sr0 ?tr0 = ?tr0" using c by (auto simp: RuneSelf_def min_def max_def)
      from foldWalk_ascii[OF bound, of "max sr0 ?tr0"]
      obtain r where "foldWalk ?tr0 (max sr0 ?tr0) (SimpleFold ?tr0) = Some r" by blast
      with True b show ?thesis
        unfolding Cons by (auto simp add: d m Let_def simp del: DecodeRuneInString.simps)
    next
      case False
      with b show ?thesis
        unfolding Cons by (auto simp add: d Let_def simp del: DecodeRuneInString.simps)
    qed
  qed
qed

lemma EqualFold_returns:
  assumes "list_all (\<lambda>c. (of_char c :: rune) < RuneSelf) t"
  shows "\<exists>b. EqualFold s t = Some b"
  using assms
proof (induction s t rule: EqualFold.induct)
  case (3 sc s tc t)
  then have t: "list_all (\<lambda>c. (of_char c :: rune) < RuneSelf) t" by simp
  from equalFoldRunes_returns[OF "3.prems", of "runes (sc # s)"]
  obtain b where "equalFoldRunes (runes (sc # s)) (tc # t) = Some b" by blast
  with 3 t show ?case by (auto simp del: runes.simps equalFoldRunes.simps)
qed auto

lemma EqualFold_test: "EqualFold ''test'' ''test'' = Some True"
  by code_simp

lemma EqualFold_test_returns: "\<exists>b. EqualFold s ''test'' = Some b"
  by (rule EqualFold_returns) (simp add: RuneSelf_def)

subsection \<open>Required settings\<close>




subsection \<open>Log level\<close>

text \<open>
  Claim C3, as amended. The log level is trimmed and lower-cased (as \<^verbatim>\<open>strings.ToLower\<close>
  does, so that the capital I with a dot, U+0130, becomes i) before it is looked at.
  The values debug, info, warn and error pass unchanged, and warning becomes warn; more
  generally a value that trims and lower-cases to one of debug, info, warn and error
  becomes that lower-case value, one that trims and lower-cases to warning becomes warn,
  and a blank value becomes info. Every other value is refused, and then loading a
  configuration file that decodes and whose paths expand fails with the log-level error.
  When loading succeeds, the log level of the loaded configuration is the normalised one.
\<close>

theorem normalizeLogLevel_cases:
  "normalizeLogLevel ''debug'' = Inr ''debug'' \<and>
   normalizeLogLevel ''info'' = Inr ''info'' \<and>
   normalizeLogLevel ''warn'' = Inr ''warn'' \<and>
   normalizeLogLevel ''error'' = Inr ''error'' \<and>
   normalizeLogLevel ''warning'' = Inr ''warn'' \<and>
   (ToLower (TrimSpace v) = [] \<longrightarrow> normalizeLogLevel v = Inr ''info'') \<and>
   (ToLower (TrimSpace v) \<in> {''debug'', ''info'', ''warn'', ''error''} \<longrightarrow>
      normalizeLogLevel v = Inr (ToLower (TrimSpace v))) \<and>
   (ToLower (TrimSpace v) = ''warning'' \<longrightarrow> normalizeLogLevel v = Inr ''warn'') \<and>
   (ToLower (TrimSpace v) \<notin> {[], ''debug'', ''info'', ''warn'', ''error'', ''warning''} \<longrightarrow>
      normalizeLogLevel v =
        Inl (Errorf ''lumera.log_level must be one of: debug, info, warn, error'')) \<and>
   (DecodeFile h path = Inr cfg0 \<and> ExpandPaths h cfg0 = Inr cfg \<longrightarrow>
      (normalizeLogLevel (LumeraConfig.LogLevel (Lumera cfg0)) = Inl e \<longrightarrow>
         LoadConfig h path = Inl e) \<and>
      (LoadConfig h path = Inr cfg' \<longrightarrow>
         normalizeLogLevel (LumeraConfig.LogLevel (Lumera cfg0)) =
           Inr (LumeraConfig.LogLevel (Lumera cfg'))))"
proof -
  have fixed: "normalizeLogLevel ''debug'' = Inr ''debug''"
    "normalizeLogLevel ''info'' = Inr ''info''"
    "normalizeLogLevel ''warn'' = Inr ''warn''"
    "normalizeLogLevel ''error'' = Inr ''error''"
    "normalizeLogLevel ''warning'' = Inr ''warn''"
    by code_simp+
  have general:
    "ToLower (TrimSpace v) = [] \<longrightarrow> normalizeLogLevel v = Inr ''info''"
    "ToLower (TrimSpace v) \<in> {''debug'', ''info'', ''warn'', ''error''} \<longrightarrow>
       normalizeLogLevel v = Inr (ToLower (TrimSpace v))"
    "ToLower (TrimSpace v) = ''warning'' \<longrightarrow> normalizeLogLevel v = Inr ''warn''"
    "ToLower (TrimSpace v) \<notin> {[], ''debug'', ''info'', ''warn'', ''error'', ''warning''} \<longrightarrow>
       normalizeLogLevel v =
         Inl (Errorf ''lumera.log_level must be one of: debug, info, warn, error'')"
    by (auto simp: normalizeLogLevel_def Let_def)
  have load: "(normalizeLogLevel (LumeraConfig.LogLevel (Lumera cfg0)) = Inl e \<longrightarrow>
         LoadConfig h path = Inl e) \<and>
      (LoadConfig h path = Inr cfg' \<longrightarrow>
         normalizeLogLevel (LumeraConfig.LogLevel (Lumera cfg0)) =
           Inr (LumeraConfig.LogLevel (Lumera cfg')))"
    if d: "DecodeFile h path = Inr cfg0" and x: "ExpandPaths h cfg0 = Inr cfg"
  proof -
    note l = LoadConfig_steps[OF d x] and lum = ExpandPaths_Lumera[OF x]
    have "LoadConfig h path = Inl e"
      if "normalizeLogLevel (LumeraConfig.LogLevel (Lumera cfg0)) = Inl e"
      using that by (simp add: l lum Validate_logLevel_error)
    moreover have "normalizeLogLevel (LumeraConfig.LogLevel (Lumera cfg0)) =
           Inr (LumeraConfig.LogLevel (Lumera cfg'))"
      if "LoadConfig h path = Inr cfg'"
    proof -
      from that have "Validate h cfg = Inr cfg'" by (simp add: l)
      from Validate_Inr[OF this] show ?thesis
        by (auto simp: lum normalised_def)
    qed
    ultimately show ?thesis by blast
  qed
  from fixed general load show ?thesis by blast
qed

theorem normalizeLogLevel_cases_witness:
  "normalizeLogLevel [] = Inr ''info'' \<and>
   normalizeLogLevel '' Debug '' = Inr ''debug'' \<and>
   normalizeLogLevel ''WARNING'' = Inr ''warn'' \<and>
   normalizeLogLevel [CHR 0xC4, CHR 0xB0, CHR ''n'', CHR ''f'', CHR ''o''] = Inr ''info'' \<and>
   normalizeLogLevel ''verbose'' =
     Inl (Errorf ''lumera.log_level must be one of: debug, info, warn, error'') \<and>
   LoadConfig
     (sampleHostWith (sampleConfig\<lparr>Lumera :=
        (Lumera sampleConfig)\<lparr>LumeraConfig.LogLevel := ''verbose''\<rparr>\<rparr>))
     ''config.toml'' =
     Inl (Errorf ''lumera.log_level must be one of: debug, info, warn, error'') \<and>
   normalizeLogLevel (LumeraConfig.LogLevel (Lumera sampleConfig)) =
     Inr (LumeraConfig.LogLevel (Lumera sampleLoaded))"
proof -
  let ?raw = "sampleConfig\<lparr>Lumera :=
        (Lumera sampleConfig)\<lparr>LumeraConfig.LogLevel := ''verbose''\<rparr>\<rparr>"
  let ?exp = "sampleLoaded\<lparr>Lumera :=
        (Lumera sampleLoaded)\<lparr>LumeraConfig.LogLevel := ''verbose''\<rparr>\<rparr>"
  let ?msg = "''lumera.log_level must be one of: debug, info, warn, error''"
  have v: "ToLower (TrimSpace []) = []" "ToLower (TrimSpace '' Debug '') = ''debug''"
    "ToLower (TrimSpace ''WARNING'') = ''warning''"
    "ToLower (TrimSpace ''verbose'') = ''verbose''"
    "ToLower (TrimSpace [CHR 0xC4, CHR 0xB0, CHR ''n'', CHR ''f'', CHR ''o'']) = ''info''"
    by code_simp+
  have 1: "normalizeLogLevel [] = Inr ''info''"
    using normalizeLogLevel_cases[of "[]"] v by simp
  have 2: "normalizeLogLevel '' Debug '' = Inr ''debug''"
    using normalizeLogLevel_cases[of "'' Debug ''"] v by simp
  have 3: "normalizeLogLevel ''WARNING'' = Inr ''warn''"
    using normalizeLogLevel_cases[of "''WARNING''"] v by simp
  have 4: "normalizeLogLevel ''verbose'' = Inl (Errorf ?msg)"
    using normalizeLogLevel_cases[of "''verbose''"] v by simp
  have 7: "normalizeLogLevel [CHR 0xC4, CHR 0xB0, CHR ''n'', CHR ''f'', CHR ''o''] = Inr ''info''"
    using normalizeLogLevel_cases[of "[CHR 0xC4, CHR 0xB0, CHR ''n'', CHR ''f'', CHR ''o'']"] v(5) by simp
  have d: "DecodeFile (sampleHostWith ?raw) ''config.toml'' = Inr ?raw" by code_simp
  have x: "ExpandPaths (sampleHostWith ?raw) ?raw = Inr ?exp" by code_simp
  have n: "normalizeLogLevel (LumeraConfig.LogLevel (Lumera ?raw)) = Inl (Errorf ?msg)"
    using 4 by simp
  have 5: "LoadConfig (sampleHostWith ?raw) ''config.toml'' = Inl (Errorf ?msg)"
    using normalizeLogLevel_cases[of _ "sampleHostWith ?raw" "''config.toml''" ?raw ?exp
        "Errorf ?msg"] d x n
    by blast
  have d': "DecodeFile sampleHost ''config.toml'' = Inr sampleConfig" by code_simp
  have x': "ExpandPaths sampleHost sampleConfig = Inr sampleLoaded" by code_simp
  have l': "LoadConfig sampleHost ''config.toml'' = Inr sampleLoaded" by code_simp
  have 6: "normalizeLogLevel (LumeraConfig.LogLevel (Lumera sampleConfig)) =
     Inr (LumeraConfig.LogLevel (Lumera sampleLoaded))"
    using normalizeLogLevel_cases[of _ sampleHost "''config.toml''" sampleConfig sampleLoaded
        _ sampleLoaded] d' x' l'
    by blast
  from 1 2 3 7 4 5 6 show ?thesis by (intro conjI)
qed

theorem normalizeLogLevel_cases_counterexample:
  "LoadConfig
     (sampleHostWith (sampleConfig\<lparr>Lumera :=
        (Lumera sampleConfig)\<lparr>LumeraConfig.LogLevel := []\<rparr>\<rparr>))
     ''config.toml'' = Inr sampleLoaded \<and>
   LoadConfig
     (sampleHostWith (sampleConfig\<lparr>Lumera :=
        (Lumera sampleConfig)\<lparr>LumeraConfig.LogLevel := ''DEBUG''\<rparr>\<rparr>))
     ''config.toml'' =
     Inr (sampleLoaded\<lparr>Lumera :=
        (Lumera sampleLoaded)\<lparr>LumeraConfig.LogLevel := ''debug''\<rparr>\<rparr>)"
  by code_simp

subsection \<open>Passphrase sources\<close>




subsection \<open>Key-store directory\<close>

text \<open>
  Claim C5. Take a configuration file that decodes and whose paths expand, with a blank
  keyring_dir. With keyring_backend file (a value that trims and lower-cases to file, as
  \<^verbatim>\<open>strings.ToLower\<close> lower-cases) loading fails, whatever the other settings are; when
  every earlier check passes, the error is "controller.keyring_dir is required for file
  backend". With keyring_backend test the blank directory is accepted: a configuration that
  passes the checks that do not concern the key-store directory (log level accepted, no
  required setting blank, not both passphrase settings, passphrase file usable if named)
  loads. Every key store then built from the loaded configuration is opened with the
  controller home setting (trimmed) as its directory, and one is built whenever a passphrase
  source can be resolved.
\<close>

theorem keyring_dir_rules:
  assumes "DecodeFile h path = Inr cfg0"
    and "ExpandPaths h cfg0 = Inr cfg"
    and "TrimSpace (KeyringDir (Config.Controller cfg)) = []"
  shows "(backendOf cfg = ''file'' \<longrightarrow> isl (LoadConfig h path)) \<and>
         (backendOf cfg = ''file'' \<and>
          normalizeLogLevel (LumeraConfig.LogLevel (Lumera cfg)) = Inr lvl \<and>
          firstBlank cfg = None \<and> \<not> bothPassphrases cfg \<longrightarrow>
            LoadConfig h path =
              Inl (Errorf ''controller.keyring_dir is required for file backend'')) \<and>
         (backendOf cfg = ''test'' \<and>
          normalizeLogLevel (LumeraConfig.LogLevel (Lumera cfg)) = Inr lvl \<and>
          firstBlank cfg = None \<and> \<not> bothPassphrases cfg \<and> passphraseFileUsable h cfg \<longrightarrow>
            LoadConfig h path = Inr (normalised cfg lvl) \<and>
            (\<forall>p. NewKeyringCall p \<in>
                   set (fst (newControllerKeyring h r (Config.Controller (normalised cfg lvl)))) \<longrightarrow>
                 Dir p = TrimSpace (Home (Config.Controller cfg))) \<and>
            (\<forall>pass.
               resolvePassphrase h (KeyringPassphrasePlain (Config.Controller cfg))
                 (KeyringPassphraseFile (Config.Controller cfg)) = Inr pass \<longrightarrow>
               fst (newControllerKeyring h r (Config.Controller (normalised cfg lvl))) =
                 [NewKeyringCall
                    \<lparr>AppName = keyringAppName h (Config.Controller (normalised cfg lvl)),
                     Backend = ''test'',
                     Dir = TrimSpace (Home (Config.Controller cfg)),
                     Input = passphraseReader pass\<rparr>]))"
proof (intro conjI impI)
  note l = LoadConfig_steps[OF assms(1,2)]
  show "isl (LoadConfig h path)" if "backendOf cfg = ''file''"
    using that assms(3) by (simp add: l Validate_file_without_dir_fails)
  show "LoadConfig h path =
      Inl (Errorf ''controller.keyring_dir is required for file backend'')"
    if "backendOf cfg = ''file'' \<and>
        normalizeLogLevel (LumeraConfig.LogLevel (Lumera cfg)) = Inr lvl \<and>
        firstBlank cfg = None \<and> \<not> bothPassphrases cfg"
    using that assms(3) by (simp add: l Validate_later_checks)
next
  assume a: "backendOf cfg = ''test'' \<and>
      normalizeLogLevel (LumeraConfig.LogLevel (Lumera cfg)) = Inr lvl \<and>
      firstBlank cfg = None \<and> \<not> bothPassphrases cfg \<and> passphraseFileUsable h cfg"
  let ?cc = "Config.Controller (normalised cfg lvl)"
  have cc: "KeyringBackend ?cc = ''test''" "KeyringDir ?cc = KeyringDir (Config.Controller cfg)"
    "Home ?cc = Home (Config.Controller cfg)"
    "KeyringPassphrasePlain ?cc = KeyringPassphrasePlain (Config.Controller cfg)"
    "KeyringPassphraseFile ?cc = KeyringPassphraseFile (Config.Controller cfg)"
    using a by (simp_all add: normalised_def)
  show "LoadConfig h path = Inr (normalised cfg lvl)"
    using a by (simp add: LoadConfig_steps[OF assms(1,2)] Validate_ok)
  have run: "fst (newControllerKeyring h r ?cc) =
      (case resolvePassphrase h (KeyringPassphrasePlain (Config.Controller cfg))
              (KeyringPassphraseFile (Config.Controller cfg)) of
         Inl err \<Rightarrow> []
       | Inr pass \<Rightarrow>
           [NewKeyringCall
              \<lparr>AppName = keyringAppName h ?cc, Backend = ''test'',
               Dir = TrimSpace (Home (Config.Controller cfg)),
               Input = passphraseReader pass\<rparr>])"
    using assms(3)
    by (cases "NewKeyring r \<lparr>AppName = keyringAppName h ?cc, Backend = ''test'',
               Dir = TrimSpace (Home (Config.Controller cfg)),
               Input = passphraseReader (projr (resolvePassphrase h
                  (KeyringPassphrasePlain (Config.Controller cfg))
                  (KeyringPassphraseFile (Config.Controller cfg))))\<rparr>")
       (auto simp: newControllerKeyring_def cc run_simps EqualFold_test Let_def
             split: sum.splits)
  show "\<forall>p. NewKeyringCall p \<in> set (fst (newControllerKeyring h r ?cc)) \<longrightarrow>
          Dir p = TrimSpace (Home (Config.Controller cfg))"
    unfolding run by (auto split: sum.splits)
  show "\<forall>pass.
      resolvePassphrase h (KeyringPassphrasePlain (Config.Controller cfg))
        (KeyringPassphraseFile (Config.Controller cfg)) = Inr pass \<longrightarrow>
      fst (newControllerKeyring h r ?cc) =
        [NewKeyringCall
           \<lparr>AppName = keyringAppName h ?cc, Backend = ''test'',
            Dir = TrimSpace (Home (Config.Controller cfg)),
            Input = passphraseReader pass\<rparr>]"
    unfolding run by simp
qed

theorem keyring_dir_rules_witness:
  "LoadConfig
     (sampleHostWith (sampleConfig\<lparr>Config.Controller :=
        (Config.Controller sampleConfig)\<lparr>KeyringBackend := ''File''\<rparr>\<rparr>))
     ''config.toml'' =
     Inl (Errorf ''controller.keyring_dir is required for file backend'') \<and>
   LoadConfig
     (sampleHostWith (sampleConfig\<lparr>Config.Controller :=
        (Config.Controller sampleConfig)
          \<lparr>KeyringBackend := [CHR ''F'', CHR 0xC4, CHR 0xB0, CHR ''L'', CHR ''E'']\<rparr>\<rparr>))
     ''config.toml'' =
     Inl (Errorf ''controller.keyring_dir is required for file backend'') \<and>
   LoadConfig sampleHost ''config.toml'' = Inr sampleLoaded \<and>
   fst (newControllerKeyring sampleHost sampleRemote (Config.Controller sampleLoaded)) =
     [NewKeyringCall
        \<lparr>AppName = ''osmosisd'', Backend = ''test'', Dir = ''/home/alice/.osmosisd'',
         Input = None\<rparr>]"
proof -
  let ?raw = "sampleConfig\<lparr>Config.Controller :=
        (Config.Controller sampleConfig)\<lparr>KeyringBackend := ''File''\<rparr>\<rparr>"
  let ?exp = "sampleLoaded\<lparr>Config.Controller :=
        (Config.Controller sampleLoaded)\<lparr>KeyringBackend := ''File''\<rparr>\<rparr>"
  have d: "DecodeFile (sampleHostWith ?raw) ''config.toml'' = Inr ?raw" by code_simp
  have x: "ExpandPaths (sampleHostWith ?raw) ?raw = Inr ?exp" by code_simp
  have k: "TrimSpace (KeyringDir (Config.Controller ?exp)) = []" by code_simp
  have f: "backendOf ?exp = ''file''"
    "normalizeLogLevel (LumeraConfig.LogLevel (Lumera ?exp)) = Inr ''info''"
    "firstBlank ?exp = None" "\<not> bothPassphrases ?exp"
    by code_simp+
  have 1: "LoadConfig (sampleHostWith ?raw) ''config.toml'' =
      Inl (Errorf ''controller.keyring_dir is required for file backend'')"
    using keyring_dir_rules[OF d x k, of "''info''"] f by blast
  let ?rawI = "sampleConfig\<lparr>Config.Controller :=
        (Config.Controller sampleConfig)
          \<lparr>KeyringBackend := [CHR ''F'', CHR 0xC4, CHR 0xB0, CHR ''L'', CHR ''E'']\<rparr>\<rparr>"
  let ?expI = "sampleLoaded\<lparr>Config.Controller :=
        (Config.Controller sampleLoaded)
          \<lparr>KeyringBackend := [CHR ''F'', CHR 0xC4, CHR 0xB0, CHR ''L'', CHR ''E'']\<rparr>\<rparr>"
  have dI: "DecodeFile (sampleHostWith ?rawI) ''config.toml'' = Inr ?rawI" by code_simp
  have xI: "ExpandPaths (sampleHostWith ?rawI) ?rawI = Inr ?expI" by code_simp
  have kI: "TrimSpace (KeyringDir (Config.Controller ?expI)) = []" by code_simp
  have fI: "backendOf ?expI = ''file''"
    "normalizeLogLevel (LumeraConfig.LogLevel (Lumera ?expI)) = Inr ''info''"
    "firstBlank ?expI = None" "\<not> bothPassphrases ?expI"
    by code_simp+
  have 4: "LoadConfig (sampleHostWith ?rawI) ''config.toml'' =
      Inl (Errorf ''controller.keyring_dir is required for file backend'')"
    using keyring_dir_rules[OF dI xI kI, of "''info''"] fI by blast
  have d': "DecodeFile sampleHost ''config.toml'' = Inr sampleConfig" by code_simp
  have x': "ExpandPaths sampleHost sampleConfig = Inr sampleLoaded" by code_simp
  have k': "TrimSpace (KeyringDir (Config.Controller sampleLoaded)) = []" by code_simp
  have t: "backendOf sampleLoaded = ''test''"
    "normalizeLogLevel (LumeraConfig.LogLevel (Lumera sampleLoaded)) = Inr ''info''"
    "firstBlank sampleLoaded = None" "\<not> bothPassphrases sampleLoaded"
    "passphraseFileUsable sampleHost sampleLoaded"
    by code_simp+
  have n: "normalised sampleLoaded ''info'' = sampleLoaded" by code_simp
  have p: "resolvePassphrase sampleHost
      (KeyringPassphrasePlain (Config.Controller sampleLoaded))
      (KeyringPassphraseFile (Config.Controller sampleLoaded)) = Inr []"
    by code_simp
  have v: "keyringAppName sampleHost (Config.Controller sampleLoaded) = ''osmosisd''"
    "TrimSpace (Home (Config.Controller sampleLoaded)) = ''/home/alice/.osmosisd''"
    "passphraseReader [] = None"
    by code_simp+
  note w = keyring_dir_rules[OF d' x' k', of "''info''" sampleRemote, unfolded n]
  have 2: "LoadConfig sampleHost ''config.toml'' = Inr sampleLoaded"
    using w t by blast
  have "fst (newControllerKeyring sampleHost sampleRemote (Config.Controller sampleLoaded)) =
     [NewKeyringCall
        \<lparr>AppName = keyringAppName sampleHost (Config.Controller sampleLoaded),
         Backend = ''test'',
         Dir = TrimSpace (Home (Config.Controller sampleLoaded)),
         Input = passphraseReader []\<rparr>]"
    using w t p by blast
  then have 3: "fst (newControllerKeyring sampleHost sampleRemote
        (Config.Controller sampleLoaded)) =
     [NewKeyringCall
        \<lparr>AppName = ''osmosisd'', Backend = ''test'', Dir = ''/home/alice/.osmosisd'',
         Input = None\<rparr>]"
    by (simp only: v)
  from 1 4 2 3 show ?thesis by (intro conjI)
qed

subsection \<open>The passphrase reader\<close>

lemma length_cycle: "length (cycle d i k) = k"
  by (simp add: cycle_def)

lemma cycle_0: "cycle d i 0 = []"
  by (simp add: cycle_def)

lemma cycle_mod: "cycle d (i mod length d) k = cycle d i k"
  by (simp add: cycle_def mod_add_left_eq)

lemma cycle_add: "cycle d i (a + b) = cycle d i a @ cycle d (i + a) b"
  by (rule nth_equalityI) (auto simp: cycle_def nth_append add.assoc)

lemma take_drop_cycle:
  assumes "ps + c \<le> length d"
  shows "take c (drop ps d) = cycle d ps c"
  using assms by (intro nth_equalityI) (auto simp: cycle_def)

lemma concat_replicate_nth:
  assumes "d \<noteq> []" and "j < m * length d"
  shows "concat (replicate m d) ! j = d ! (j mod length d)"
  using assms
proof (induction m arbitrary: j)
  case 0
  then show ?case by simp
next
  case (Suc m)
  show ?case
  proof (cases "j < length d")
    case True
    then show ?thesis by (simp add: nth_append)
  next
    case False
    then have "j - length d < m * length d" using Suc.prems by simp
    from Suc.IH[OF Suc.prems(1) this] False show ?thesis
      by (simp add: nth_append le_mod_geq)
  qed
qed

lemma cycle_prefix_of_repetition:
  assumes "d \<noteq> []" and "k \<le> m * length d"
  shows "cycle d 0 k = take k (concat (replicate m d))"
proof (rule nth_equalityI)
  show "length (cycle d 0 k) = length (take k (concat (replicate m d)))"
    using assms by (simp add: length_cycle length_concat sum_list_replicate)
next
  fix j assume "j < length (cycle d 0 k)"
  then have j: "j < k" by (simp add: length_cycle)
  with assms have "j < m * length d" by simp
  from concat_replicate_nth[OF assms(1) this] j
  show "cycle d 0 k ! j = take k (concat (replicate m d)) ! j"
    by (simp add: cycle_def)
qed

lemma readLoop_returns:
  assumes "d \<noteq> []" and "ps \<le> length d" and "n \<le> length p"
  shows "\<exists>ps'. readLoop d ps p n = Some (take n p @ cycle d ps (length p - n), length p, ps') \<and>
               ps' \<le> length d \<and> ps' mod length d = (ps + (length p - n)) mod length d"
  using assms
proof (induction "length p - n" arbitrary: ps p n rule: less_induct)
  case less
  show ?case
  proof (cases "n < length p")
    case False
    with less.prems have "n = length p" by simp
    then show ?thesis using less.prems
      by (subst readLoop.simps) (simp add: cycle_0)
  next
    case True
    define ps1 where "ps1 = (if length d - ps = 0 then 0 else ps)"
    define remaining where "remaining = (if length d - ps = 0 then length d else length d - ps)"
    define chunk where "chunk = (if remaining > length p - n then length p - n else remaining)"
    define p1 where "p1 = take n p @ take chunk (drop ps1 d) @ drop (n + chunk) p"
    have dpos: "0 < length d" using less.prems(1) by simp
    have rem: "0 < remaining" "ps1 + remaining = length d"
      using less.prems(2) dpos by (auto simp: remaining_def ps1_def)
    have chunk: "0 < chunk" "chunk \<le> length p - n" "ps1 + chunk \<le> length d"
      using rem True by (auto simp: chunk_def)
    have ps1: "ps1 mod length d = ps mod length d"
      using less.prems(2) by (auto simp: ps1_def)
    have lenp1: "length p1 = length p"
      using chunk True by (simp add: p1_def take_drop_cycle length_cycle)
    have step: "readLoop d ps p n = readLoop d (ps1 + chunk) p1 (n + chunk)"
      using True
      by (subst readLoop.simps)
         (simp add: Let_def ps1_def remaining_def chunk_def p1_def)
    have "length p1 - (n + chunk) < length p - n"
      using chunk True lenp1 by simp
    moreover have "ps1 + chunk \<le> length d" "n + chunk \<le> length p1"
      using chunk lenp1 by simp_all
    ultimately obtain ps' where
      ih: "readLoop d (ps1 + chunk) p1 (n + chunk) =
             Some (take (n + chunk) p1 @ cycle d (ps1 + chunk) (length p1 - (n + chunk)),
                   length p1, ps')"
      and b: "ps' \<le> length d"
      and m: "ps' mod length d = (ps1 + chunk + (length p1 - (n + chunk))) mod length d"
      using less.hyps[of p1 "n + chunk" "ps1 + chunk"] less.prems(1) by blast
    have tk: "take (n + chunk) p1 = take n p @ cycle d ps1 chunk"
      using chunk True by (simp add: p1_def take_drop_cycle length_cycle)
    have c1: "cycle d ps1 chunk = cycle d ps chunk"
      using ps1 by (metis cycle_mod)
    have c2: "cycle d (ps1 + chunk) (length p - (n + chunk)) =
              cycle d (ps + chunk) (length p - (n + chunk))"
    proof -
      have "(ps1 + chunk) mod length d = (ps + chunk) mod length d"
        using ps1 by (metis mod_add_left_eq)
      then show ?thesis by (metis cycle_mod)
    qed
    have split: "length p - n = chunk + (length p - (n + chunk))"
      using chunk by simp
    have whole: "cycle d ps (length p - n) =
               cycle d ps chunk @ cycle d (ps + chunk) (length p - (n + chunk))"
      using cycle_add[of d ps chunk "length p - (n + chunk)"] split by simp
    have out: "take (n + chunk) p1 @ cycle d (ps1 + chunk) (length p1 - (n + chunk)) =
               take n p @ cycle d ps (length p - n)"
      by (simp add: tk c1 c2 lenp1 whole)
    have "(ps1 + chunk + (length p1 - (n + chunk))) mod length d =
          (ps + (length p - n)) mod length d"
    proof -
      have "ps1 + chunk + (length p1 - (n + chunk)) = ps1 + (length p - n)"
        using chunk lenp1 by simp
      then show ?thesis using ps1 by (metis mod_add_left_eq)
    qed
    then have m': "ps' mod length d = (ps + (length p - n)) mod length d"
      using m by simp
    have "readLoop d ps p n = Some (take n p @ cycle d ps (length p - n), length p, ps')"
      using out by (simp add: step ih lenp1)
    with b m' show ?thesis by blast
  qed
qed

lemma Read_returns:
  assumes "data r \<noteq> []" and "pos r \<le> length (data r)"
  shows "\<exists>ps'. Read r p = Some ((cycle (data r) (pos r) (length p), length p, None),
                                  r\<lparr>pos := ps'\<rparr>) \<and>
               ps' \<le> length (data r) \<and>
               ps' mod length (data r) = (pos r + length p) mod length (data r)"
proof -
  from readLoop_returns[OF assms, of 0 p] obtain ps' where
    "readLoop (data r) (pos r) p 0 = Some (cycle (data r) (pos r) (length p), length p, ps')"
    "ps' \<le> length (data r)"
    "ps' mod length (data r) = (pos r + length p) mod length (data r)"
    by auto
  with assms(1) show ?thesis by (auto simp: Read_def)
qed

lemma reads_returns:
  assumes "data r \<noteq> []" and "pos r \<le> length (data r)"
  shows "\<exists>outs r'. reads r bufs = Some (outs, r') \<and>
           map snd outs = map (\<lambda>p. (length p, None)) bufs \<and>
           concat (map (\<lambda>out. take (fst (snd out)) (fst out)) outs) =
             cycle (data r) (pos r) (sum_list (map length bufs))"
  using assms
proof (induction bufs arbitrary: r)
  case Nil
  then show ?case by (simp add: cycle_0)
next
  case (Cons p bufs)
  from Read_returns[OF Cons.prems, of p] obtain ps' where
    rd: "Read r p = Some ((cycle (data r) (pos r) (length p), length p, None), r\<lparr>pos := ps'\<rparr>)"
    and b: "ps' \<le> length (data r)"
    and m: "ps' mod length (data r) = (pos r + length p) mod length (data r)"
    by blast
  let ?r1 = "r\<lparr>pos := ps'\<rparr>"
  have "data ?r1 \<noteq> []" "pos ?r1 \<le> length (data ?r1)"
    using Cons.prems b by simp_all
  from Cons.IH[OF this] obtain outs r' where
    rs: "reads ?r1 bufs = Some (outs, r')"
    and ns: "map snd outs = map (\<lambda>p. (length p, None)) bufs"
    and cs: "concat (map (\<lambda>out. take (fst (snd out)) (fst out)) outs) =
               cycle (data r) ps' (sum_list (map length bufs))"
    by auto
  have "cycle (data r) ps' (sum_list (map length bufs)) =
        cycle (data r) (pos r + length p) (sum_list (map length bufs))"
    using m by (metis cycle_mod)
  then have "cycle (data r) (pos r) (length p) @
             concat (map (\<lambda>out. take (fst (snd out)) (fst out)) outs) =
             cycle (data r) (pos r) (sum_list (map length (p # bufs)))"
    by (simp add: cs cycle_add)
  with rd rs ns show ?case
    by (simp add: length_cycle)
qed

text \<open>
  Claim C9. For a non-empty passphrase, \<open>passphraseReader\<close> yields a reader; every
  \<open>Read\<close> in a succession of calls on it, whatever the buffers, returns, fills its whole
  buffer (the count is the length of the buffer) and reports no error, so never EOF; and the
  bytes returned, taken together, are a prefix of the passphrase followed by a newline,
  repeated over and over.
\<close>

theorem passphraseReader_cyclic:
  assumes "passphrase \<noteq> []"
  shows "\<exists>r outs r'.
           passphraseReader passphrase = Some r \<and>
           reads r bufs = Some (outs, r') \<and>
           map snd outs = map (\<lambda>p. (length p, None)) bufs \<and>
           concat (map (\<lambda>out. take (fst (snd out)) (fst out)) outs) =
             take (sum_list (map length bufs))
               (concat (replicate (sum_list (map length bufs)) (passphrase @ [CHR 0x0A])))"
proof -
  let ?r = "\<lparr>data = passphrase @ [CHR 0x0A], pos = 0\<rparr>"
  let ?k = "sum_list (map length bufs)"
  have r: "passphraseReader passphrase = Some ?r"
    using assms by (simp add: passphraseReader_def)
  have "data ?r \<noteq> []" "pos ?r \<le> length (data ?r)" by simp_all
  from reads_returns[OF this, of bufs] obtain outs r' where
    rs: "reads ?r bufs = Some (outs, r')"
    and ns: "map snd outs = map (\<lambda>p. (length p, None)) bufs"
    and cs: "concat (map (\<lambda>out. take (fst (snd out)) (fst out)) outs) =
               cycle (passphrase @ [CHR 0x0A]) 0 ?k"
    by auto
  have "cycle (passphrase @ [CHR 0x0A]) 0 ?k =
        take ?k (concat (replicate ?k (passphrase @ [CHR 0x0A])))"
    by (rule cycle_prefix_of_repetition) simp_all
  with r rs ns cs show ?thesis by (intro exI[of _ ?r] exI[of _ outs] exI[of _ r']) simp
qed

theorem passphraseReader_cyclic_witness:
  "''hunter2'' \<noteq> [] \<and>
   (\<exists>r outs r'.
      passphraseReader ''hunter2'' = Some r \<and>
      reads r [''xxx'', ''yyyyyyyyyy''] = Some (outs, r') \<and>
      map snd outs = [(3, None), (10, None)] \<and>
      concat (map (\<lambda>out. take (fst (snd out)) (fst out)) outs) =
        ''hunter2'' @ [CHR 0x0A] @ ''hunte'')"
proof -
  have h: "''hunter2'' \<noteq> []" by simp
  have v: "take (sum_list (map length [''xxx'', ''yyyyyyyyyy'']))
       (concat (replicate (sum_list (map length [''xxx'', ''yyyyyyyyyy'']))
          (''hunter2'' @ [CHR 0x0A]))) = ''hunter2'' @ [CHR 0x0A] @ ''hunte''"
    by code_simp
  have m: "map (\<lambda>p. (length p, None :: error option)) [''xxx'', ''yyyyyyyyyy''] =
      [(3, None), (10, None)]"
    by simp
  from passphraseReader_cyclic[OF h, of "[''xxx'', ''yyyyyyyyyy'']"]
  show ?thesis unfolding v m using h by blast
qed

lemma reads_sample: "reads \<lparr>data = ''hunter2'' @ [CHR 0x0A], pos = 0\<rparr> [''xxx'', ''yyyyyyyyyy''] =
   Some ([(''hun'', 3, None), (''ter2'' @ [CHR 0x0A] @ ''hunte'', 10, None)],
         \<lparr>data = ''hunter2'' @ [CHR 0x0A], pos = 5\<rparr>)"
  by (simp add: Read_def readLoop.simps Let_def)


subsection \<open>The sample deployment, evaluated\<close>

lemma sampleRemote_simps:
  "ActionStatePending sampleRemote = ''ACTION_STATE_PENDING''"
  "NewKeyring sampleRemote params = Inr (KeyringHandle 1)"
  "validateKeyType sampleRemote kr name sect = Inr ()"
  "AddressFromKey sampleRemote kr name hrp = Inr (hrp @ ''1'' @ name)"
  "CascadeNew sampleRemote ccfg kr = Inr (CascadeHandle 1)"
  "BlockchainNew sampleRemote bcfg kr name = Inr (BlockchainHandle 1)"
  "UploadToSupernode sampleRemote cl actionID path signer = Inr ''task-1''"
  "Download sampleRemote cl actionID outDir signer =
     Inr \<lparr>DownloadResult.ActionID = actionID, TaskID = ''task-3'',
          OutputPath = outDir @ ''/'' @ actionID\<rparr>"
  "ParseDecCoins sampleRemote v = Inr [\<lparr>Denom = ''uosmo'', Amount = 30000000000000000\<rparr>]"
  "ICANewController sampleRemote icfg = Inr (ICAHandle 1)"
  "InnerOwnerAddress sampleRemote i = ''osmo1alice''"
  "InnerICAAddress sampleRemote i = Inl (Errorf ''interchain account not found'')"
  "Encode sampleRemote p = Inr ()"
  by (simp_all add: sampleRemote_def)

lemma sample_GetAction:
  "GetAction sampleRemote bc ''7'' = Inr pendingAction"
  "GetAction sampleRemote bc ''8'' = Inr doneAction"
  "GetAction sampleRemote bc ''5'' = Inl (Errorf ''action not found'')"
  by (simp_all add: sampleRemote_def)

lemma sample_loadConfig: "loadConfig sampleHost sampleApp = Inr sampleLoaded"
  by code_simp

lemma sample_newControllerKeyring:
  "newControllerKeyring sampleHost sampleRemote (Config.Controller sampleLoaded) =
     ([NewKeyringCall \<lparr>AppName = ''osmosisd'', Backend = ''test'',
                       Dir = ''/home/alice/.osmosisd'', Input = None\<rparr>],
      Inr (KeyringHandle 1))"
  by code_simp

lemma sample_NewCascadeClient:
  "snd (NewCascadeClient sampleHost sampleRemote sampleLoaded) = Inr sampleClient"
proof -
  have v: "ControllerConfig.KeyName (Config.Controller sampleLoaded) = ''alice''"
    "ControllerConfig.AccountHRP (Config.Controller sampleLoaded) = ''osmo''"
    by code_simp+
  show ?thesis
    unfolding NewCascadeClient_def
    by (simp add: sample_newControllerKeyring run_simps sampleRemote_simps v sampleClient_def
          cong: andThen_weak_cong)
qed

lemma sample_NewLumeraClient:
  "snd (NewLumeraClient sampleRemote cfg kr name) = Inr (BlockchainHandle 1)"
  by (simp add: NewLumeraClient_def run_simps sampleRemote_simps Let_def)

lemma sample_NewICAController:
  "snd (NewICAController sampleRemote sampleLoaded kr) = Inr sampleController"
proof -
  have g: "TrimSpace (GasPrices (Config.Controller sampleLoaded)) = ''0.03uosmo''"
    by code_simp
  have p: "parseGasPrices sampleRemote (GasPrices (Config.Controller sampleLoaded)) =
      Inr (30000000000000000, ''uosmo'')"
    by (simp add: parseGasPrices_def g sampleRemote_simps Let_def)
  show ?thesis
    unfolding NewICAController_def
    by (simp add: p run_simps sampleRemote_simps sampleController_def Let_def
          cong: andThen_weak_cong)
qed

lemma run_collapse: "snd m = res \<Longrightarrow> m = (fst m, res)"
  by (cases m) simp

lemma sample_inputs:
  "resolveOptionalArg ''photo.jpg'' [] ''file'' = Inr ''photo.jpg''"
  "resolveOptionalArg [] [''7''] ''action-id'' = Inr ''7''"
  "resolveOptionalArg [] [''8''] ''action-id'' = Inr ''8''"
  "Abs sampleHost ''photo.jpg'' = Inr ''/work/photo.jpg''"
  "TrimSpace ''7'' \<noteq> []" "TrimSpace ''8'' \<noteq> []"
  "TrimSpace [] = []"
  "Clean sampleHost ''out'' = ''out''"
  "MkdirAll sampleHost ''out'' = Inr ()"
  by code_simp+

subsection \<open>What the construction of the clients calls\<close>

lemma calls_simps:
  "fst (lift res) = []"
  "snd (lift res) = res"
  "fst (fail e) = []"
  "snd (fail e) = Inl e"
  "fst (invoke c res) = [c]"
  "snd (invoke c res) = res"
  "fst (wrapping prefix m) = fst m"
  "fst (deferring cs m) = fst m @ cs"
  "snd (deferring cs m) = snd m"
  "fst (writeJSON r p) = [WriteJSONCall p]"
  "snd (writeJSON r p) = Encode r p"
  by (auto simp: lift_def fail_def invoke_def wrapping_def deferring_def writeJSON_def
           split: prod.splits sum.splits)

lemma snd_wrapping_Inr: "snd (wrapping prefix m) = Inr x \<longleftrightarrow> snd m = Inr x"
  by (auto simp: wrapping_def split: prod.splits sum.splits)

lemma in_calls_andThen:
  "c \<in> set (fst (andThen m f)) \<longleftrightarrow>
     c \<in> set (fst m) \<or> (\<exists>x. snd m = Inr x \<and> c \<in> set (fst (f x)))"
  by (cases m; cases "snd m") (auto simp: andThen_def split: prod.splits)

lemma snd_andThen_Inr:
  "snd (andThen m f) = Inr y \<longleftrightarrow> (\<exists>x. snd m = Inr x \<and> snd (f x) = Inr y)"
  by (cases m; cases "snd m") (auto simp: andThen_def split: prod.splits)

lemma setup_simps:
  "isSetup (NewKeyringCall params)"
  "isSetup (AddressFromKeyCall kr name hrp)"
  "isSetup (CascadeNewCall ccfg kr)"
  "isSetup (BlockchainNewCall bcfg kr name)"
  "isSetup (ICANewControllerCall icfg)"
  by (simp_all add: isSetup_def)

lemma isSetup_other:
  assumes "isSetup c"
  shows "\<not> isMeshUpload c" "\<not> isRegistration c" "\<not> isApproval c"
  using assms
  by (cases c; simp add: isSetup_def isMeshUpload_def isRegistration_def isApproval_def)+

lemma meshUpload_simps:
  "isMeshUpload (UploadToSupernodeCall cl actionID path signer)"
  "isMeshUpload (CascadeUploadCall cl creator path opts)"
  "\<not> isMeshUpload (GetActionCall bc actionID)"
  "\<not> isMeshUpload (BlockchainCloseCall bc)"
  "\<not> isMeshUpload (CascadeCloseCall cl)"
  "\<not> isMeshUpload (ICACloseCall i)"
  "\<not> isMeshUpload (WriteJSONCall p)"
  "\<not> isMeshUpload (DownloadCall cl actionID path signer)"
  "\<not> isMeshUpload (EnsureICAAddressCall i)"
  "\<not> isMeshUpload (ICAAddressCall i)"
  by (simp_all add: isMeshUpload_def)

lemma newControllerKeyring_setup:
  "c \<in> set (fst (newControllerKeyring h r cc)) \<Longrightarrow> isSetup c"
  by (auto simp: newControllerKeyring_def in_calls_andThen calls_simps Let_def setup_simps)

lemma NewCascadeClient_setup:
  "c \<in> set (fst (NewCascadeClient h r cfg)) \<Longrightarrow> isSetup c"
  by (auto simp: NewCascadeClient_def in_calls_andThen calls_simps Let_def setup_simps
           dest: newControllerKeyring_setup)

lemma NewLumeraClient_setup:
  "c \<in> set (fst (NewLumeraClient r cfg kr name)) \<Longrightarrow> isSetup c"
  by (auto simp: NewLumeraClient_def calls_simps Let_def setup_simps)

lemma NewICAController_setup:
  "c \<in> set (fst (NewICAController r cfg kr)) \<Longrightarrow> isSetup c"
  by (auto simp: NewICAController_def in_calls_andThen calls_simps Let_def setup_simps
           split: prod.splits)

lemma upload_only_for_pending:
  assumes "UploadToSupernodeCall cl actionID' path signer \<in>
             set (fst (uploadCmd h r a filePathFlag actionID public args))"
  shows "TrimSpace actionID \<noteq> [] \<and>
         (\<exists>bc action. GetAction r bc actionID = Inr action \<and>
            State action = ActionStatePending r \<and> actionID' = ID action \<and>
            signer = TrimSpace (Action.Creator action))"
  using assms
  by (auto simp: uploadCmd_def in_calls_andThen calls_simps Let_def Close_def
                 EnsureICAAddress_def
           dest: NewCascadeClient_setup NewLumeraClient_setup NewICAController_setup
           simp: isSetup_def
           split: if_splits option.splits)

subsection \<open>Resuming an upload\<close>

text \<open>
  Claim C1. Suppose the upload command is given a non-blank action id and gets as far as
  fetching the action: the file argument resolves, the configuration loads, the path is made
  absolute, both clients are constructed, and the host ledger returns an action record. If
  the state of that record is not the pending state, the command makes no further call but
  the deferred closes, and fails with the error "action <id> state is <state>; expected
  <pending state>", which names the actual and the expected state; no call in the whole run
  sends bytes to the storage mesh.
\<close>

theorem upload_resume_state_mismatch:
  assumes "resolveOptionalArg filePathFlag args ''file'' = Inr filePath"
    and "loadConfig h a = Inr cfg"
    and "Abs h filePath = Inr absPath"
    and "NewCascadeClient h r cfg = (t1, Inr cascClient)"
    and "TrimSpace actionID \<noteq> []"
    and "NewLumeraClient r cfg (Client.Keyring cascClient)
           (ControllerConfig.KeyName (Config.Controller cfg)) = (t2, Inr bc)"
    and "GetAction r bc actionID = Inr action"
    and "State action \<noteq> ActionStatePending r"
  shows "uploadCmd h r a filePathFlag actionID public args =
           (t1 @ t2 @ [GetActionCall bc actionID, BlockchainCloseCall bc,
                       CascadeCloseCall (Cascade cascClient)],
            Inl (Errorf (''action '' @ ID action @ '' state is '' @ State action @
                         ''; expected '' @ ActionStatePending r))) \<and>
         (\<forall>c \<in> set (fst (uploadCmd h r a filePathFlag actionID public args)).
            \<not> isMeshUpload c)"
proof -
  have run: "uploadCmd h r a filePathFlag actionID public args =
           (t1 @ t2 @ [GetActionCall bc actionID, BlockchainCloseCall bc,
                       CascadeCloseCall (Cascade cascClient)],
            Inl (Errorf (''action '' @ ID action @ '' state is '' @ State action @
                         ''; expected '' @ ActionStatePending r)))"
    unfolding uploadCmd_def
    by (simp add: assms run_simps cong: andThen_weak_cong)
  have "isSetup c" if "c \<in> set t1" for c
    using NewCascadeClient_setup[of c h r cfg] that assms(4) by simp
  moreover have "isSetup c" if "c \<in> set t2" for c
    using NewLumeraClient_setup[of c r cfg "Client.Keyring cascClient"
        "ControllerConfig.KeyName (Config.Controller cfg)"] that assms(6) by simp
  ultimately have "\<forall>c \<in> set (t1 @ t2 @ [GetActionCall bc actionID, BlockchainCloseCall bc,
                       CascadeCloseCall (Cascade cascClient)]). \<not> isMeshUpload c"
    using isSetup_other(1) by (auto simp: meshUpload_simps)
  with run show ?thesis by simp
qed

theorem upload_resume_state_mismatch_witness:
  "snd (uploadCmd sampleHost sampleRemote sampleApp ''photo.jpg'' ''8'' False []) =
     Inl (Errorf ''action 8 state is ACTION_STATE_DONE; expected ACTION_STATE_PENDING'') \<and>
   filter isMeshUpload
     (fst (uploadCmd sampleHost sampleRemote sampleApp ''photo.jpg'' ''8'' False [])) = []"
proof -
  have st: "State doneAction \<noteq> ActionStatePending sampleRemote"
    by (simp add: doneAction_def sampleRemote_simps)
  have msg: "''action '' @ ID doneAction @ '' state is '' @ State doneAction @
      ''; expected '' @ ActionStatePending sampleRemote =
      ''action 8 state is ACTION_STATE_DONE; expected ACTION_STATE_PENDING''"
    by (simp add: doneAction_def sampleRemote_simps)
  note t = upload_resume_state_mismatch[
      OF sample_inputs(1) sample_loadConfig sample_inputs(4)
         run_collapse[OF sample_NewCascadeClient] sample_inputs(6)
         run_collapse[OF sample_NewLumeraClient] sample_GetAction(2) st,
      of False, unfolded msg]
  from t show ?thesis by (simp add: filter_empty_conv)
qed

subsection \<open>Approving an action\<close>

lemma NewICAController_inner:
  assumes "NewICAController r cfg kr = (t, Inr controller)"
  shows "\<exists>i. inner controller = Some i"
  using assms
  by (auto simp: NewICAController_def andThen_def lift_def invoke_def wrapping_def Let_def
           split: sum.splits prod.splits)

lemma registration_simps:
  "\<not> isRegistration (ICAAddressCall i)"
  "\<not> isRegistration (ICACloseCall i)"
  "\<not> isRegistration (CascadeCloseCall cl)"
  "\<not> isRegistration (CreateApproveActionMessageCall actionID creator)"
  "\<not> isRegistration (SendApproveActionCall i msg)"
  "\<not> isRegistration (WriteJSONCall p)"
  by (simp_all add: isRegistration_def)

lemma approve_never_registers:
  assumes "c \<in> set (fst (approveCmd h r a actionIDFlag icaAddressFlag args))"
  shows "\<not> isRegistration c"
proof -
  from assms have "isSetup c \<or> \<not> isRegistration c"
    by (auto simp: approveCmd_def in_calls_andThen calls_simps Let_def Close_def
                   ICAAddress_def SendApproveAction_def registration_simps
             dest: NewCascadeClient_setup NewICAController_setup
             split: if_splits option.splits)
  then show ?thesis using isSetup_other(2) by blast
qed

lemma approval_simps:
  "\<not> isApproval (ICAAddressCall i)"
  "\<not> isApproval (ICACloseCall i)"
  "\<not> isApproval (CascadeCloseCall cl)"
  by (simp_all add: isApproval_def)

text \<open>
  Claim C6. No run of the approve command ever asks for an interchain account to be
  registered. When no address override is given (the flag is blank) and the command gets as
  far as resolving the address (the action id resolves, the configuration loads, the client
  and the controller are constructed), it queries the address; if the query answers with an
  error, such as the account not being found, the command returns that error after the
  deferred closes, and no call in the whole run builds or sends an approval message.
\<close>

theorem approve_resolves_by_query:
  "(\<forall>c \<in> set (fst (approveCmd h r a actionIDFlag icaAddressFlag args)). \<not> isRegistration c) \<and>
   (resolveOptionalArg actionIDFlag args ''action-id'' = Inr actionID \<and>
    loadConfig h a = Inr cfg \<and>
    NewCascadeClient h r cfg = (t1, Inr cascClient) \<and>
    NewICAController r cfg (Client.Keyring cascClient) = (t2, Inr controller) \<and>
    inner controller = Some i \<and>
    TrimSpace icaAddressFlag = [] \<and>
    InnerICAAddress r i = Inl err \<longrightarrow>
      approveCmd h r a actionIDFlag icaAddressFlag args =
        (t1 @ t2 @ [ICAAddressCall i, ICACloseCall i, CascadeCloseCall (Cascade cascClient)],
         Inl err) \<and>
      (\<forall>c \<in> set (fst (approveCmd h r a actionIDFlag icaAddressFlag args)). \<not> isApproval c))"
proof (intro conjI impI ballI)
  fix c assume "c \<in> set (fst (approveCmd h r a actionIDFlag icaAddressFlag args))"
  then show "\<not> isRegistration c" by (rule approve_never_registers)
next
  assume a: "resolveOptionalArg actionIDFlag args ''action-id'' = Inr actionID \<and>
    loadConfig h a = Inr cfg \<and>
    NewCascadeClient h r cfg = (t1, Inr cascClient) \<and>
    NewICAController r cfg (Client.Keyring cascClient) = (t2, Inr controller) \<and>
    inner controller = Some i \<and>
    TrimSpace icaAddressFlag = [] \<and>
    InnerICAAddress r i = Inl err"
  show run: "approveCmd h r a actionIDFlag icaAddressFlag args =
        (t1 @ t2 @ [ICAAddressCall i, ICACloseCall i, CascadeCloseCall (Cascade cascClient)],
         Inl err)"
    unfolding approveCmd_def
    using a by (simp add: run_simps ICAAddress_def Close_def cong: andThen_weak_cong)
  fix c assume "c \<in> set (fst (approveCmd h r a actionIDFlag icaAddressFlag args))"
  then have "c \<in> set t1 \<or> c \<in> set t2 \<or>
      c \<in> {ICAAddressCall i, ICACloseCall i, CascadeCloseCall (Cascade cascClient)}"
    unfolding run by auto
  moreover have "isSetup c" if "c \<in> set t1"
    using NewCascadeClient_setup[of c h r cfg] that a by simp
  moreover have "isSetup c" if "c \<in> set t2"
    using NewICAController_setup[of c r cfg "Client.Keyring cascClient"] that a by simp
  ultimately show "\<not> isApproval c"
    using isSetup_other(3) by (auto simp: approval_simps)
qed


theorem approve_resolves_by_query_witness:
  "snd (approveCmd sampleHost sampleRemote sampleApp [] [] [''7'']) =
     Inl (Errorf ''interchain account not found'') \<and>
   filter isApproval (fst (approveCmd sampleHost sampleRemote sampleApp [] [] [''7''])) = [] \<and>
   filter isRegistration (fst (approveCmd sampleHost sampleRemote sampleApp [] [] [''7''])) = []"
proof -
  have i: "inner sampleController = Some (ICAHandle 1)"
    by (simp add: sampleController_def)
  note t = approve_resolves_by_query[of sampleHost sampleRemote sampleApp "[]" "[]" "[''7'']"
      "''7''" sampleLoaded "fst (NewCascadeClient sampleHost sampleRemote sampleLoaded)"
      sampleClient
      "fst (NewICAController sampleRemote sampleLoaded (Client.Keyring sampleClient))"
      sampleController "ICAHandle 1" "Errorf ''interchain account not found''"]
  have pre: "resolveOptionalArg [] [''7''] ''action-id'' = Inr ''7'' \<and>
    loadConfig sampleHost sampleApp = Inr sampleLoaded \<and>
    NewCascadeClient sampleHost sampleRemote sampleLoaded =
      (fst (NewCascadeClient sampleHost sampleRemote sampleLoaded), Inr sampleClient) \<and>
    NewICAController sampleRemote sampleLoaded (Client.Keyring sampleClient) =
      (fst (NewICAController sampleRemote sampleLoaded (Client.Keyring sampleClient)),
       Inr sampleController) \<and>
    inner sampleController = Some (ICAHandle 1) \<and>
    TrimSpace [] = [] \<and>
    InnerICAAddress sampleRemote (ICAHandle 1) = Inl (Errorf ''interchain account not found'')"
    using sample_inputs(2,7) sample_loadConfig run_collapse[OF sample_NewCascadeClient]
      run_collapse[OF sample_NewICAController] i sampleRemote_simps(12)
    by (intro conjI)
  from t pre show ?thesis by (simp add: filter_empty_conv)
qed

lemma upload_resume_run:
  assumes "resolveOptionalArg filePathFlag args ''file'' = Inr filePath"
    and "loadConfig h a = Inr cfg"
    and "Abs h filePath = Inr absPath"
    and "NewCascadeClient h r cfg = (t1, Inr cascClient)"
    and "TrimSpace actionID \<noteq> []"
    and "NewLumeraClient r cfg (Client.Keyring cascClient)
           (ControllerConfig.KeyName (Config.Controller cfg)) = (t2, Inr bc)"
    and "GetAction r bc actionID = Inr action"
    and "State action = ActionStatePending r"
    and "UploadToSupernode r (Cascade cascClient) (ID action) absPath
           (TrimSpace (Action.Creator action)) = Inr taskID"
    and "payload =
           [(''status'', JString ''ok''),
            (''action_id'', JString (ID action)),
            (''tx_hash'', JString []),
            (''task_id'', JString taskID),
            (''ica_address'', JString (Action.Creator action)),
            (''ica_owner_address'', JString (OwnerAddress cascClient)),
            (''file'', JString absPath)] @
           (case Metadata action of
              CascadeMetadataPtr (Some meta) \<Rightarrow> [(''is_public'', JBool (Public meta))]
            | _ \<Rightarrow> [])"
  shows "uploadCmd h r a filePathFlag actionID public args =
           (t1 @ t2 @
            [GetActionCall bc actionID,
             UploadToSupernodeCall (Cascade cascClient) (ID action) absPath
               (TrimSpace (Action.Creator action)),
             WriteJSONCall payload,
             BlockchainCloseCall bc,
             CascadeCloseCall (Cascade cascClient)],
            Encode r payload)"
  unfolding uploadCmd_def
  using assms(1-9)
  by (cases "Metadata action")
     (simp_all add: run_simps Let_def assms(10) split: option.splits
        cong: andThen_weak_cong)

lemma filter_setup_meshUpload:
  assumes "\<And>c. c \<in> set t \<Longrightarrow> isSetup c"
  shows "filter isMeshUpload t = []"
  using assms isSetup_other(1) by (auto simp: filter_empty_conv)

lemma upload_resume_mesh_calls:
  assumes "uploadCmd h r a filePathFlag actionID public args =
             (t1 @ t2 @ [GetActionCall bc actionID, up, WriteJSONCall payload,
                         BlockchainCloseCall bc, CascadeCloseCall cl], res)"
    and "\<And>c. c \<in> set t1 \<Longrightarrow> isSetup c"
    and "\<And>c. c \<in> set t2 \<Longrightarrow> isSetup c"
    and "isMeshUpload up"
  shows "filter isMeshUpload (fst (uploadCmd h r a filePathFlag actionID public args)) = [up]"
  unfolding assms(1)
  by (simp add: filter_setup_meshUpload[OF assms(2)] filter_setup_meshUpload[OF assms(3)]
        meshUpload_simps assms(4))

text \<open>
  Claim C7. Suppose the upload command is given a non-blank action id, the action fetched
  is in the pending state, and the transfer to the storage mesh succeeds. The creator
  recorded for an action is a ledger address, which carries no surrounding white space;
  the command trims the recorded creator before using it as the signer, and that leaves
  an address as it is. Then the command makes exactly one transfer call,
  \<^verbatim>\<open>UploadToSupernode\<close> for the action's id and the absolute path, with the recorded
  creator as the signer. It writes one result record and returns what writing it returns.
  In that record status is ok, tx_hash is empty, ica_address is the recorded creator, and
  is_public is present only when the metadata of the action is a (non-nil) cascade
  metadata, and then has the value of its public flag.
\<close>

theorem upload_resume_report:
  assumes "resolveOptionalArg filePathFlag args ''file'' = Inr filePath"
    and "loadConfig h a = Inr cfg"
    and "Abs h filePath = Inr absPath"
    and "NewCascadeClient h r cfg = (t1, Inr cascClient)"
    and "TrimSpace actionID \<noteq> []"
    and "NewLumeraClient r cfg (Client.Keyring cascClient)
           (ControllerConfig.KeyName (Config.Controller cfg)) = (t2, Inr bc)"
    and "GetAction r bc actionID = Inr action"
    and "State action = ActionStatePending r"
    and "TrimSpace (Action.Creator action) = Action.Creator action"
    and "UploadToSupernode r (Cascade cascClient) (ID action) absPath
           (Action.Creator action) = Inr taskID"
  shows "\<exists>payload.
           uploadCmd h r a filePathFlag actionID public args =
             (t1 @ t2 @
              [GetActionCall bc actionID,
               UploadToSupernodeCall (Cascade cascClient) (ID action) absPath
                 (Action.Creator action),
               WriteJSONCall payload,
               BlockchainCloseCall bc,
               CascadeCloseCall (Cascade cascClient)],
              Encode r payload) \<and>
           filter isMeshUpload (fst (uploadCmd h r a filePathFlag actionID public args)) =
             [UploadToSupernodeCall (Cascade cascClient) (ID action) absPath
                (Action.Creator action)] \<and>
           map_of payload ''status'' = Some (JString ''ok'') \<and>
           map_of payload ''action_id'' = Some (JString (ID action)) \<and>
           map_of payload ''tx_hash'' = Some (JString []) \<and>
           map_of payload ''task_id'' = Some (JString taskID) \<and>
           map_of payload ''ica_address'' = Some (JString (Action.Creator action)) \<and>
           map_of payload ''is_public'' =
             (case Metadata action of
                CascadeMetadataPtr (Some meta) \<Rightarrow> Some (JBool (Public meta))
              | _ \<Rightarrow> None)"
proof -
  define payload where "payload =
           [(''status'', JString ''ok''),
            (''action_id'', JString (ID action)),
            (''tx_hash'', JString []),
            (''task_id'', JString taskID),
            (''ica_address'', JString (Action.Creator action)),
            (''ica_owner_address'', JString (OwnerAddress cascClient)),
            (''file'', JString absPath)] @
           (case Metadata action of
              CascadeMetadataPtr (Some meta) \<Rightarrow> [(''is_public'', JBool (Public meta))]
            | _ \<Rightarrow> [])"
  have up: "UploadToSupernode r (Cascade cascClient) (ID action) absPath
           (TrimSpace (Action.Creator action)) = Inr taskID"
    using assms(10) by (simp only: assms(9))
  have run: "uploadCmd h r a filePathFlag actionID public args =
             (t1 @ t2 @
              [GetActionCall bc actionID,
               UploadToSupernodeCall (Cascade cascClient) (ID action) absPath
                 (Action.Creator action),
               WriteJSONCall payload,
               BlockchainCloseCall bc,
               CascadeCloseCall (Cascade cascClient)],
              Encode r payload)"
    using upload_resume_run[OF assms(1-8) up payload_def, of public]
    by (simp only: assms(9))
  have s1: "isSetup c" if "c \<in> set t1" for c
    using NewCascadeClient_setup[of c h r cfg] that assms(4) by simp
  have s2: "isSetup c" if "c \<in> set t2" for c
    using NewLumeraClient_setup[of c r cfg "Client.Keyring cascClient"
        "ControllerConfig.KeyName (Config.Controller cfg)"] that assms(6) by simp
  have mesh: "filter isMeshUpload (fst (uploadCmd h r a filePathFlag actionID public args)) =
             [UploadToSupernodeCall (Cascade cascClient) (ID action) absPath
                (Action.Creator action)]"
    using upload_resume_mesh_calls[OF run s1 s2 meshUpload_simps(1)] .
  have fields: "map_of payload ''status'' = Some (JString ''ok'')"
    "map_of payload ''action_id'' = Some (JString (ID action))"
    "map_of payload ''tx_hash'' = Some (JString [])"
    "map_of payload ''task_id'' = Some (JString taskID)"
    "map_of payload ''ica_address'' = Some (JString (Action.Creator action))"
    by (simp_all add: payload_def)
  have vis: "map_of payload ''is_public'' =
             (case Metadata action of
                CascadeMetadataPtr (Some meta) \<Rightarrow> Some (JBool (Public meta))
              | _ \<Rightarrow> None)"
    by (simp add: payload_def split: ActionMetadata.splits option.splits)
  from run mesh fields vis show ?thesis by blast
qed

theorem upload_resume_report_witness:
  "\<exists>payload.
     snd (uploadCmd sampleHost sampleRemote sampleApp ''photo.jpg'' ''7'' False []) =
       Encode sampleRemote payload \<and>
     WriteJSONCall payload \<in>
       set (fst (uploadCmd sampleHost sampleRemote sampleApp ''photo.jpg'' ''7'' False [])) \<and>
     filter isMeshUpload
       (fst (uploadCmd sampleHost sampleRemote sampleApp ''photo.jpg'' ''7'' False [])) =
       [UploadToSupernodeCall (CascadeHandle 1) ''7'' ''/work/photo.jpg'' ''lumera1ica''] \<and>
     map_of payload ''tx_hash'' = Some (JString []) \<and>
     map_of payload ''ica_address'' = Some (JString ''lumera1ica'') \<and>
     map_of payload ''is_public'' = Some (JBool True)"
proof -
  have st: "State pendingAction = ActionStatePending sampleRemote"
    by (simp add: pendingAction_def sampleRemote_simps)
  have v: "Cascade sampleClient = CascadeHandle 1" "ID pendingAction = ''7''"
    "Action.Creator pendingAction = ''lumera1ica''"
    "Metadata pendingAction =
       CascadeMetadataPtr (Some \<lparr>Public = True, FileName = ''photo.jpg''\<rparr>)"
    by code_simp+
  have tr: "TrimSpace (Action.Creator pendingAction) = Action.Creator pendingAction"
    by code_simp
  have up: "UploadToSupernode sampleRemote (Cascade sampleClient) (ID pendingAction)
      ''/work/photo.jpg'' (Action.Creator pendingAction) = Inr ''task-1''"
    by (simp add: sampleRemote_simps)
  from upload_resume_report[
      OF sample_inputs(1) sample_loadConfig sample_inputs(4)
         run_collapse[OF sample_NewCascadeClient] sample_inputs(5)
         run_collapse[OF sample_NewLumeraClient] sample_GetAction(1) st tr up,
      of False]
  obtain payload where
    run: "uploadCmd sampleHost sampleRemote sampleApp ''photo.jpg'' ''7'' False [] =
       (fst (NewCascadeClient sampleHost sampleRemote sampleLoaded) @
        fst (NewLumeraClient sampleRemote sampleLoaded (Client.Keyring sampleClient)
               (ControllerConfig.KeyName (Config.Controller sampleLoaded))) @
        [GetActionCall (BlockchainHandle 1) ''7'',
         UploadToSupernodeCall (Cascade sampleClient) (ID pendingAction) ''/work/photo.jpg''
           (Action.Creator pendingAction),
         WriteJSONCall payload, BlockchainCloseCall (BlockchainHandle 1),
         CascadeCloseCall (Cascade sampleClient)],
        Encode sampleRemote payload)"
    and mesh: "filter isMeshUpload
       (fst (uploadCmd sampleHost sampleRemote sampleApp ''photo.jpg'' ''7'' False [])) =
       [UploadToSupernodeCall (Cascade sampleClient) (ID pendingAction) ''/work/photo.jpg''
           (Action.Creator pendingAction)]"
    and f: "map_of payload ''tx_hash'' = Some (JString [])"
      "map_of payload ''ica_address'' = Some (JString (Action.Creator pendingAction))"
      "map_of payload ''is_public'' =
         (case Metadata pendingAction of
            CascadeMetadataPtr (Some meta) \<Rightarrow> Some (JBool (Public meta))
          | _ \<Rightarrow> None)"
    by blast
  have 1: "snd (uploadCmd sampleHost sampleRemote sampleApp ''photo.jpg'' ''7'' False []) =
       Encode sampleRemote payload"
    by (simp add: run)
  have 2: "WriteJSONCall payload \<in>
       set (fst (uploadCmd sampleHost sampleRemote sampleApp ''photo.jpg'' ''7'' False []))"
    by (simp add: run)
  have 3: "map_of payload ''is_public'' = Some (JBool True)"
    using f(3) by (simp add: v)
  have 4: "filter isMeshUpload
       (fst (uploadCmd sampleHost sampleRemote sampleApp ''photo.jpg'' ''7'' False [])) =
       [UploadToSupernodeCall (CascadeHandle 1) ''7'' ''/work/photo.jpg'' ''lumera1ica'']"
    using mesh by (simp only: v)
  have 5: "map_of payload ''ica_address'' = Some (JString ''lumera1ica'')"
    using f(2) by (simp only: v)
  from 1 2 3 4 5 f(1) show ?thesis by blast
qed

subsection \<open>Downloading\<close>

lemma lookupFails_fileName:
  assumes "lookupFails r cfg cascClient actionID"
  shows "fst (snd (lookupFileName r cfg cascClient actionID)) = []"
  using assms
  by (auto simp: lookupFails_def lookupFileName_def
           split: prod.splits sum.splits ActionMetadata.splits option.splits)

lemma download_run:
  assumes "resolveOptionalArg actionIDFlag args ''action-id'' = Inr actionID"
    and "loadConfig h a = Inr cfg"
    and "MkdirAll h (Clean h outDirFlag) = Inr ()"
    and "NewCascadeClient h r cfg = (t1, Inr cascClient)"
    and "NewICAController r cfg (Client.Keyring cascClient) = (t2, Inr controller)"
    and "Download r (Cascade cascClient) actionID (Clean h outDirFlag)
           (OwnerAddress_of r controller) = Inr res"
    and "lookupFileName r cfg cascClient actionID = (t3, fileName, deferred)"
    and "payload =
           [(''status'', JString ''ok''),
            (''action_id'', JString (DownloadResult.ActionID res)),
            (''task_id'', JString (DownloadResult.TaskID res)),
            (''output_path'', JString (OutputPath res)),
            (''file_name'', JString fileName)]"
  shows "downloadCmd h r a actionIDFlag outDirFlag args =
           (t1 @ t2 @
            [DownloadCall (Cascade cascClient) actionID (Clean h outDirFlag)
               (OwnerAddress_of r controller)] @
            t3 @ [WriteJSONCall payload] @ deferred @ Close controller @
            [CascadeCloseCall (Cascade cascClient)],
            Encode r payload)"
  unfolding downloadCmd_def
  using assms
  by (simp add: run_simps Let_def cong: andThen_weak_cong)

text \<open>
  Claim C8. Suppose the download command gets as far as a successful transfer from the
  storage mesh (the action id resolves, the configuration loads, the output directory
  exists or is made, the client and the controller are constructed, the download call
  succeeds), and the look-up of the action's metadata then fails in any of its three ways.
  The failure is dropped: the command still writes the result record, with status ok, the
  identifiers and output path of the transfer and an empty file_name, and returns what
  writing the record returns; so it succeeds whenever the record can be written.
\<close>

theorem download_best_effort:
  assumes "resolveOptionalArg actionIDFlag args ''action-id'' = Inr actionID"
    and "loadConfig h a = Inr cfg"
    and "MkdirAll h (Clean h outDirFlag) = Inr ()"
    and "NewCascadeClient h r cfg = (t1, Inr cascClient)"
    and "NewICAController r cfg (Client.Keyring cascClient) = (t2, Inr controller)"
    and "Download r (Cascade cascClient) actionID (Clean h outDirFlag)
           (OwnerAddress_of r controller) = Inr res"
    and "lookupFails r cfg cascClient actionID"
    and "payload =
           [(''status'', JString ''ok''),
            (''action_id'', JString (DownloadResult.ActionID res)),
            (''task_id'', JString (DownloadResult.TaskID res)),
            (''output_path'', JString (OutputPath res)),
            (''file_name'', JString [])]"
  shows "snd (downloadCmd h r a actionIDFlag outDirFlag args) = Encode r payload \<and>
         WriteJSONCall payload \<in> set (fst (downloadCmd h r a actionIDFlag outDirFlag args)) \<and>
         (Encode r payload = Inr () \<longrightarrow>
            snd (downloadCmd h r a actionIDFlag outDirFlag args) = Inr ())"
proof -
  obtain t3 fileName deferred where
    l: "lookupFileName r cfg cascClient actionID = (t3, fileName, deferred)"
    by (cases "lookupFileName r cfg cascClient actionID") auto
  with lookupFails_fileName[OF assms(7)] have "fileName = []" by simp
  with l assms(8) download_run[OF assms(1-6) l, of payload]
  show ?thesis by simp
qed


theorem download_best_effort_witness:
  "snd (downloadCmd sampleHost sampleRemote sampleApp [] ''out'' [''8'']) = Inr () \<and>
   WriteJSONCall
     [(''status'', JString ''ok''), (''action_id'', JString ''8''),
      (''task_id'', JString ''task-3''), (''output_path'', JString ''out/8''),
      (''file_name'', JString [])]
     \<in> set (fst (downloadCmd sampleHost sampleRemote sampleApp [] ''out'' [''8''])) \<and>
   snd (downloadCmd sampleHost sampleRemote sampleApp [] ''out'' [''5'']) = Inr () \<and>
   WriteJSONCall
     [(''status'', JString ''ok''), (''action_id'', JString ''5''),
      (''task_id'', JString ''task-3''), (''output_path'', JString ''out/5''),
      (''file_name'', JString [])]
     \<in> set (fst (downloadCmd sampleHost sampleRemote sampleApp [] ''out'' [''5'']))"
proof -
  have r5: "resolveOptionalArg [] [''5''] ''action-id'' = Inr ''5''" by code_simp
  have mk: "MkdirAll sampleHost (Clean sampleHost ''out'') = Inr ()" by code_simp
  have cl: "Clean sampleHost ''out'' = ''out''" by code_simp
  have f8: "lookupFails sampleRemote sampleLoaded sampleClient ''8''"
    by (simp add: lookupFails_def NewLumeraClient_def run_simps sampleRemote_simps
          sample_GetAction doneAction_def Let_def)
  have f5: "lookupFails sampleRemote sampleLoaded sampleClient ''5''"
    by (simp add: lookupFails_def NewLumeraClient_def run_simps sampleRemote_simps
          sample_GetAction Let_def)
  have d: "Download sampleRemote (Cascade sampleClient) actionID (Clean sampleHost ''out'')
      (OwnerAddress_of sampleRemote sampleController) =
      Inr \<lparr>DownloadResult.ActionID = actionID, TaskID = ''task-3'',
           OutputPath = ''out'' @ ''/'' @ actionID\<rparr>" for actionID
    by (simp add: sampleRemote_simps cl)
  have e: "Encode sampleRemote p = Inr ()" for p
    by (simp add: sampleRemote_simps)
  note t8 = download_best_effort[
      OF sample_inputs(3) sample_loadConfig mk run_collapse[OF sample_NewCascadeClient]
         run_collapse[OF sample_NewICAController] d f8 refl]
  note t5 = download_best_effort[
      OF r5 sample_loadConfig mk run_collapse[OF sample_NewCascadeClient]
         run_collapse[OF sample_NewICAController] d f5 refl]
  from t8 t5 show ?thesis by (simp add: e)
qed

subsection \<open>Flag and argument exclusivity\<close>

text \<open>
  Trimming a trimmed string changes nothing; a command stops with the error of the helper
  when the helper fails, and otherwise depends on the flag and the positional arguments
  only through the value the helper resolves.
\<close>

lemma leadingSpace_None_iff:
  "leadingSpace s = None \<longleftrightarrow> (\<forall>e \<in> set spaceRunes. take (length e) s \<noteq> e)"
  by (auto simp: leadingSpace_def find_None_iff)

lemma trailingSpace_None_iff:
  "trailingSpace s = None \<longleftrightarrow> (\<forall>e \<in> set spaceRunes. drop (length s - length e) s \<noteq> e)"
  by (auto simp: trailingSpace_def find_None_iff)

lemma TrimLeftSpace_fixed: "leadingSpace s = None \<Longrightarrow> TrimLeftSpace s = s"
  by (subst TrimLeftSpace.simps) simp

lemma TrimRightSpace_fixed: "trailingSpace s = None \<Longrightarrow> TrimRightSpace s = s"
  by (subst TrimRightSpace.simps) simp

lemma leadingSpace_TrimLeftSpace: "leadingSpace (TrimLeftSpace s) = None"
proof (induction s rule: TrimLeftSpace.induct)
  case (1 s)
  show ?case
  proof (cases "leadingSpace s")
    case None
    then show ?thesis by (simp add: TrimLeftSpace_fixed)
  next
    case (Some e)
    with 1 show ?thesis by (subst TrimLeftSpace.simps) simp
  qed
qed

lemma trailingSpace_TrimRightSpace: "trailingSpace (TrimRightSpace s) = None"
proof (induction s rule: TrimRightSpace.induct)
  case (1 s)
  show ?case
  proof (cases "trailingSpace s")
    case None
    then show ?thesis by (simp add: TrimRightSpace_fixed)
  next
    case (Some e)
    with 1 show ?thesis by (subst TrimRightSpace.simps) simp
  qed
qed

lemma TrimRightSpace_prefix: "\<exists>n. TrimRightSpace s = take n s"
proof (induction s rule: TrimRightSpace.induct)
  case (1 s)
  show ?case
  proof (cases "trailingSpace s")
    case None
    then have "TrimRightSpace s = take (length s) s" by (simp add: TrimRightSpace_fixed)
    then show ?thesis by blast
  next
    case (Some e)
    with 1 obtain n where
      "TrimRightSpace (take (length s - length e) s) = take n (take (length s - length e) s)"
      by blast
    with Some have "TrimRightSpace s = take (min n (length s - length e)) s"
      by (subst TrimRightSpace.simps) (simp add: min.commute)
    then show ?thesis by blast
  qed
qed

lemma leadingSpace_take:
  assumes "leadingSpace s = None"
  shows "leadingSpace (take n s) = None"
  unfolding leadingSpace_None_iff
proof
  fix e assume e: "e \<in> set spaceRunes"
  show "take (length e) (take n s) \<noteq> e"
  proof
    assume eq: "take (length e) (take n s) = e"
    then have "length (take (length e) (take n s)) = length e" by simp
    then have "length e \<le> n" by simp
    with eq have "take (length e) s = e" by (simp add: min_absorb1)
    with assms e show False by (simp add: leadingSpace_None_iff)
  qed
qed

lemma TrimSpace_idem: "TrimSpace (TrimSpace s) = TrimSpace s"
proof -
  obtain n where n: "TrimRightSpace (TrimLeftSpace s) = take n (TrimLeftSpace s)"
    using TrimRightSpace_prefix by blast
  have "leadingSpace (TrimRightSpace (TrimLeftSpace s)) = None"
    unfolding n by (rule leadingSpace_take) (rule leadingSpace_TrimLeftSpace)
  then have a: "TrimLeftSpace (TrimRightSpace (TrimLeftSpace s)) =
      TrimRightSpace (TrimLeftSpace s)"
    by (rule TrimLeftSpace_fixed)
  have b: "TrimRightSpace (TrimRightSpace (TrimLeftSpace s)) = TrimRightSpace (TrimLeftSpace s)"
    by (rule TrimRightSpace_fixed) (rule trailingSpace_TrimRightSpace)
  show ?thesis
    unfolding TrimSpace_def by (simp only: a b)
qed

lemma resolveOptionalArg_cases:
  "TrimSpace flagValue \<noteq> [] \<Longrightarrow> args \<noteq> [] \<Longrightarrow>
     resolveOptionalArg flagValue args name =
       Inl (Errorf (name @ '' provided both as flag and argument''))"
  "TrimSpace flagValue \<noteq> [] \<Longrightarrow> args = [] \<Longrightarrow>
     resolveOptionalArg flagValue args name = Inr (TrimSpace flagValue)"
  "TrimSpace flagValue = [] \<Longrightarrow> args \<noteq> [] \<Longrightarrow>
     resolveOptionalArg flagValue args name = Inr (TrimSpace (hd args))"
  "TrimSpace flagValue = [] \<Longrightarrow> args = [] \<Longrightarrow>
     resolveOptionalArg flagValue args name = Inl (Errorf (name @ '' is required''))"
  by (cases args; simp add: resolveOptionalArg_def Let_def)+

lemma command_stops:
  "resolveOptionalArg flagValue args ''file'' = Inl e \<Longrightarrow>
     uploadCmd h r a flagValue actionID public args = ([], Inl e)"
  "resolveOptionalArg flagValue args ''action-id'' = Inl e \<Longrightarrow>
     downloadCmd h r a flagValue outDir args = ([], Inl e)"
  "resolveOptionalArg flagValue args ''action-id'' = Inl e \<Longrightarrow>
     approveCmd h r a flagValue icaAddress args = ([], Inl e)"
  "resolveOptionalArg flagValue args ''action-id'' = Inl e \<Longrightarrow>
     statusCmd h r a flagValue args = ([], Inl e)"
  by (simp_all add: uploadCmd_def downloadCmd_def approveCmd_def statusCmd_def run_simps
        cong: andThen_weak_cong)

lemma command_resolved:
  "resolveOptionalArg flagValue args ''file'' = resolveOptionalArg flagValue' args' ''file'' \<Longrightarrow>
     uploadCmd h r a flagValue actionID public args =
     uploadCmd h r a flagValue' actionID public args'"
  "resolveOptionalArg flagValue args ''action-id'' =
     resolveOptionalArg flagValue' args' ''action-id'' \<Longrightarrow>
     downloadCmd h r a flagValue outDir args = downloadCmd h r a flagValue' outDir args'"
  "resolveOptionalArg flagValue args ''action-id'' =
     resolveOptionalArg flagValue' args' ''action-id'' \<Longrightarrow>
     approveCmd h r a flagValue icaAddress args = approveCmd h r a flagValue' icaAddress args'"
  "resolveOptionalArg flagValue args ''action-id'' =
     resolveOptionalArg flagValue' args' ''action-id'' \<Longrightarrow>
     statusCmd h r a flagValue args = statusCmd h r a flagValue' args'"
  by (simp_all only: uploadCmd_def downloadCmd_def approveCmd_def statusCmd_def)

lemma status_run_fetch_error:
  assumes "resolveOptionalArg actionIDFlag args ''action-id'' = Inr actionID"
    and "loadConfig h a = Inr cfg"
    and "NewCascadeClient h r cfg = (t1, Inr cascClient)"
    and "NewLumeraClient r cfg (Client.Keyring cascClient)
           (ControllerConfig.KeyName (Config.Controller cfg)) = (t2, Inr bc)"
    and "GetAction r bc actionID = Inl e"
  shows "statusCmd h r a actionIDFlag args =
           (t1 @ t2 @ [GetActionCall bc actionID, BlockchainCloseCall bc,
                       CascadeCloseCall (Cascade cascClient)],
            Inl e)"
  unfolding statusCmd_def
  by (simp add: assms run_simps cong: andThen_weak_cong)

lemma status_run:
  assumes "resolveOptionalArg actionIDFlag args ''action-id'' = Inr actionID"
    and "loadConfig h a = Inr cfg"
    and "NewCascadeClient h r cfg = (t1, Inr cascClient)"
    and "NewLumeraClient r cfg (Client.Keyring cascClient)
           (ControllerConfig.KeyName (Config.Controller cfg)) = (t2, Inr bc)"
    and "GetAction r bc actionID = Inr action"
    and "payload =
           [(''status'', JString ''ok''),
            (''action_id'', JString (ID action)),
            (''state'', JString (State action)),
            (''type'', JString (Type action)),
            (''creator'', JString (Action.Creator action)),
            (''price'', JString (Price action)),
            (''block_height'', JInt (BlockHeight action)),
            (''expires_at'', JInt (ExpirationTime action))] @
           (case Metadata action of
              CascadeMetadataPtr (Some meta) \<Rightarrow> [(''is_public'', JBool (Public meta))]
            | _ \<Rightarrow> []) @
           (if Action.AppPubkey action \<noteq> []
            then [(''app_pubkey'', JString (EncodeToString (Action.AppPubkey action)))]
            else [])"
  shows "statusCmd h r a actionIDFlag args =
           (t1 @ t2 @ [GetActionCall bc actionID, WriteJSONCall payload,
                       BlockchainCloseCall bc, CascadeCloseCall (Cascade cascClient)],
            Encode r payload)"
  unfolding statusCmd_def
  using assms(1-5)
  by (cases "Metadata action")
     (simp_all add: run_simps Let_def assms(6) split: option.splits
        cong: andThen_weak_cong)

lemma status_sample_payload:
  "[(''status'', JString ''ok''),
    (''action_id'', JString (ID pendingAction)),
    (''state'', JString (State pendingAction)),
    (''type'', JString (Type pendingAction)),
    (''creator'', JString (Action.Creator pendingAction)),
    (''price'', JString (Price pendingAction)),
    (''block_height'', JInt (BlockHeight pendingAction)),
    (''expires_at'', JInt (ExpirationTime pendingAction))] @
   (case Metadata pendingAction of
      CascadeMetadataPtr (Some meta) \<Rightarrow> [(''is_public'', JBool (Public meta))]
    | _ \<Rightarrow> []) @
   (if Action.AppPubkey pendingAction \<noteq> []
    then [(''app_pubkey'', JString (EncodeToString (Action.AppPubkey pendingAction)))]
    else []) =
   [(''status'', JString ''ok''), (''action_id'', JString ''7''),
    (''state'', JString ''ACTION_STATE_PENDING''), (''type'', JString ''ACTION_TYPE_CASCADE''),
    (''creator'', JString ''lumera1ica''), (''price'', JString ''10000ulume''),
    (''block_height'', JInt 120), (''expires_at'', JInt 1767225600),
    (''is_public'', JBool True), (''app_pubkey'', JString ''cHVia2V5'')]"
  by code_simp

lemma status_sample:
  "statusCmd sampleHost sampleRemote sampleApp [] [''7''] =
     (fst (NewCascadeClient sampleHost sampleRemote sampleLoaded) @
      fst (NewLumeraClient sampleRemote sampleLoaded (Client.Keyring sampleClient)
             (ControllerConfig.KeyName (Config.Controller sampleLoaded))) @
      [GetActionCall (BlockchainHandle 1) ''7'',
       WriteJSONCall
         [(''status'', JString ''ok''), (''action_id'', JString ''7''),
          (''state'', JString ''ACTION_STATE_PENDING''),
          (''type'', JString ''ACTION_TYPE_CASCADE''),
          (''creator'', JString ''lumera1ica''), (''price'', JString ''10000ulume''),
          (''block_height'', JInt 120), (''expires_at'', JInt 1767225600),
          (''is_public'', JBool True), (''app_pubkey'', JString ''cHVia2V5'')],
       BlockchainCloseCall (BlockchainHandle 1), CascadeCloseCall (Cascade sampleClient)],
      Inr ())"
proof -
  note run = status_run[OF sample_inputs(2) sample_loadConfig
      run_collapse[OF sample_NewCascadeClient] run_collapse[OF sample_NewLumeraClient]
      sample_GetAction(1) status_sample_payload[symmetric]]
  have e: "Encode sampleRemote p = Inr ()" for p by (rule sampleRemote_simps)
  from run show ?thesis by (simp only: e)
qed

end
